theory Spec2Isabelle
  imports Complex_Main
begin

section \<open>Figure composition of \<open>src/utils/image_utils.py\<close>\<close>

text \<open>
  The development embeds \<open>generate_heatmap_fig\<close>: the first loop, which inspects every
  tensor and collects width ratios, images and colour ranges, and the second loop, which
  draws every panel. The plotting and tensor libraries are outside the repository; what
  the code asks of them is recorded as a trace of calls, and whether such a call raises
  is a parameter of the model. The default value of the parameter \<open>minmax\<close> is a list
  object that outlives the call, so its content goes in and comes out of every call.
  \<open>generate_final_imgs\<close> repeats the same first loop and the same default; its file
  output is not modelled.
\<close>

subsection \<open>Floating-point values and the numeric primitives\<close>

text \<open>
  Array entries, centers and ranges are IEEE floats. Only comparisons, minima and maxima
  are taken of them, which are exact, so a finite float is its real value; the two
  infinities and NaN are kept apart, since the code starts from \<open>np.inf\<close> and
  \<open>-np.inf\<close> and since every comparison with NaN is false.
\<close>

datatype fl = NaN | NInf | Fin real | PInf

fun fl_less :: "fl \<Rightarrow> fl \<Rightarrow> bool" where
  "fl_less NaN b = False"
| "fl_less a NaN = False"
| "fl_less PInf b = False"
| "fl_less a NInf = False"
| "fl_less NInf b = True"
| "fl_less a PInf = True"
| "fl_less (Fin x) (Fin y) = (x < y)"

definition fl_le :: "fl \<Rightarrow> fl \<Rightarrow> bool" where
  "fl_le a b = (a \<noteq> NaN \<and> b \<noteq> NaN \<and> \<not> fl_less b a)"


text \<open>\<open>np.minimum\<close> and \<open>np.maximum\<close> return NaN as soon as one argument is NaN.\<close>

definition np_minimum :: "fl \<Rightarrow> fl \<Rightarrow> fl" where
  "np_minimum a b = (if a = NaN \<or> b = NaN then NaN else if fl_less b a then b else a)"

definition np_maximum :: "fl \<Rightarrow> fl \<Rightarrow> fl" where
  "np_maximum a b = (if a = NaN \<or> b = NaN then NaN else if fl_less a b then b else a)"

datatype error = UnsupportedRank | IndexError | TypeError | ValueError
  | TransformError | ImshowError

text \<open>\<open>np.min\<close> and \<open>np.max\<close> reduce a flat array and raise on an empty one.\<close>

fun np_min :: "fl list \<Rightarrow> error + fl" where
  "np_min [] = Inl ValueError"
| "np_min (x # xs) = Inr (foldl np_minimum x xs)"

fun np_max :: "fl list \<Rightarrow> error + fl" where
  "np_max [] = Inl ValueError"
| "np_max (x # xs) = Inr (foldl np_maximum x xs)"

definition np_append :: "fl list \<Rightarrow> fl \<Rightarrow> fl list" where
  "np_append xs v = xs @ [v]"

text \<open>
  Python's builtin \<open>max(a, b)\<close> keeps \<open>a\<close> unless \<open>b > a\<close>; \<open>np.clip(x, 0, None)\<close> is
  \<open>np.maximum(x, 0)\<close>.
\<close>

definition py_max :: "fl \<Rightarrow> fl \<Rightarrow> fl" where
  "py_max a b = (if fl_less a b then b else a)"

definition np_clip_0 :: "fl \<Rightarrow> fl" where
  "np_clip_0 x = np_maximum x (Fin 0)"

text \<open>Indexing a list with the non-negative index of \<open>enumerate\<close>.\<close>

definition py_index :: "'a list \<Rightarrow> nat \<Rightarrow> error + 'a" where
  "py_index xs i = (if i < length xs then Inr (xs ! i) else Inl IndexError)"

subsection \<open>Tensors\<close>

text \<open>A tensor or array is its shape and its entries in row-major order.\<close>

record tensor =
  shape :: "nat list"
  elems :: "fl list"

definition ndim :: "tensor \<Rightarrow> nat" where
  "ndim t = length (shape t)"

definition squeeze :: "tensor \<Rightarrow> tensor" where
  "squeeze t = t\<lparr>shape := filter (\<lambda>d. d \<noteq> 1) (shape t)\<rparr>"

text \<open>
  \<open>np.moveaxis(img, 0, 2)\<close> on an array of shape \<open>(c, h, w)\<close> whose entries fill that
  shape: entry \<open>(y, x, k)\<close> of the result is entry \<open>(k, y, x)\<close> of the argument. The
  code calls it on rank 3 only.
\<close>

definition moveaxis_0_2 :: "tensor \<Rightarrow> tensor" where
  "moveaxis_0_2 t =
     (case shape t of
        [c, h, w] \<Rightarrow>
          \<lparr>shape = [h, w, c],
           elems = map (\<lambda>k. elems t ! ((k mod c) * (h * w) + k div c)) [0..<c * h * w]\<rparr>
      | _ \<Rightarrow> t)"

subsection \<open>The external libraries\<close>

datatype cmap = Coolwarm | Viridis

text \<open>
  The arguments of one \<open>sns.heatmap\<close> call that vary; \<open>square\<close> and the tick labels
  are constants of the code, and the axis is kept with the call in the trace. \<open>cbar\<close>
  and \<open>cbar_kws\<close> (shrink, pad) are \<open>None\<close> when the keyword is not passed; seaborn then
  draws the colour bar (its default is \<open>cbar=True\<close>).
\<close>

record heat_args =
  img :: tensor
  center :: "fl option"
  cmap :: cmap
  vmin :: "fl option"
  vmax :: "fl option"
  cbar :: "bool option"
  cbar_kws :: "(real \<times> real) option"

text \<open>
  What the code cannot decide itself: the entries \<open>invTrans()\<close> returns for a squeezed
  rank-3 tensor (\<open>None\<close> when the transform raises), and whether \<open>sns.heatmap\<close> and
  \<open>imshow\<close> raise.
\<close>

record ext =
  inv_trans :: "tensor \<Rightarrow> fl list option"
  heatmap_raises :: "heat_args \<Rightarrow> bool"
  imshow_raises :: "tensor \<Rightarrow> bool"

text \<open>
  The trace of calls into matplotlib, seaborn and \<open>print\<close>. A call that raises is still
  recorded: the call was made.
\<close>

datatype event =
    Subplots nat real "real list"
  | SetTitle nat string
  | Heatmap nat heat_args
  | Print string
  | Imshow nat tensor
  | SetAxisOff nat
  | TightLayout

text \<open>
  \<open>plt.subplots(ncols=n)\<close> raises for \<open>n = 0\<close>, returns a single Axes object for
  \<open>n = 1\<close> and an array of \<open>n\<close> Axes otherwise; a single Axes cannot be indexed.
\<close>

datatype axes = SingleAxes | AxesArray nat

definition subplots :: "nat \<Rightarrow> error + axes" where
  "subplots ncols =
     (if ncols = 0 then Inl ValueError
      else if ncols = 1 then Inr SingleAxes
      else Inr (AxesArray ncols))"

definition axs_index :: "axes \<Rightarrow> nat \<Rightarrow> error + nat" where
  "axs_index axs idx =
     (case axs of
        SingleAxes \<Rightarrow> Inl TypeError
      | AxesArray n \<Rightarrow> if idx < n then Inr idx else Inl IndexError)"

subsection \<open>The first loop: ratios, images and ranges\<close>

record lstate =
  ratios :: "real list"
  imgs :: "tensor list"
  minmax :: "(fl \<times> fl) list"
  g_vmax :: fl

text \<open>\<open>colorbars is not None and colorbars[idx] == False\<close>\<close>

definition colorbar_off :: "bool list option \<Rightarrow> nat \<Rightarrow> error + bool" where
  "colorbar_off colorbars idx =
     (case colorbars of
        None \<Rightarrow> Inr False
      | Some cb \<Rightarrow> (case py_index cb idx of Inl e \<Rightarrow> Inl e | Inr b \<Rightarrow> Inr (b = False)))"

text \<open>
  Lines 57 to 81 of one iteration of the loop over \<open>enumerate(img_tensors)\<close>: the
  ratio, the image, \<open>vmin\<close>, \<open>vmax\<close> and the new \<open>g_vmax\<close>, or the error raised.
\<close>

definition scan_panel ::
  "ext \<Rightarrow> fl option list \<Rightarrow> bool list option \<Rightarrow> nat \<Rightarrow> tensor \<Rightarrow> fl
     \<Rightarrow> error + (real \<times> tensor \<times> fl \<times> fl \<times> fl)" where
  "scan_panel ex centers colorbars idx tensor_img g =
     (let vmax0 = NInf; vmin0 = PInf; tensor_squeezed = squeeze tensor_img in
      if ndim tensor_squeezed = 2 then
        (let im = squeeze tensor_img in
         (case colorbar_off colorbars idx of
            Inl e \<Rightarrow> Inl e
          | Inr off \<Rightarrow>
              (let ratio = (if off then 1 else 1.25) in
               (case py_index centers idx of
                  Inl e \<Rightarrow> Inl e
                | Inr (Some c) \<Rightarrow> Inr (ratio, im, vmin0, vmax0, g)
                | Inr None \<Rightarrow>
                    (case np_min (np_append (elems im) vmin0) of
                       Inl e \<Rightarrow> Inl e
                     | Inr vmin1 \<Rightarrow>
                         (case np_max (np_append (elems im) vmax0) of
                            Inl e \<Rightarrow> Inl e
                          | Inr vmax1 \<Rightarrow> Inr (ratio, im, vmin1, vmax1, py_max vmax1 g)))))))
      else if ndim tensor_squeezed = 3 then
        (case inv_trans ex tensor_squeezed of
           None \<Rightarrow> Inl TransformError
         | Some es \<Rightarrow> Inr (1, moveaxis_0_2 (tensor_squeezed\<lparr>elems := es\<rparr>), vmin0, vmax0, g))
      else Inl UnsupportedRank)"

text \<open>
  The whole iteration: lines 82 to 84 append to \<open>minmax\<close> and \<open>imgs\<close> after every
  possible raise.
\<close>

definition layout_step ::
  "ext \<Rightarrow> fl option list \<Rightarrow> bool list option \<Rightarrow> bool \<Rightarrow> nat \<Rightarrow> tensor \<Rightarrow> lstate
     \<Rightarrow> error + lstate" where
  "layout_step ex centers colorbars calculate_minmax idx tensor_img st =
     (case scan_panel ex centers colorbars idx tensor_img (g_vmax st) of
        Inl e \<Rightarrow> Inl e
      | Inr (ratio, im, vmin1, vmax1, g) \<Rightarrow>
          Inr (st\<lparr>ratios := ratios st @ [ratio],
                  imgs := imgs st @ [im],
                  minmax := (if calculate_minmax then minmax st @ [(vmin1, vmax1)]
                             else minmax st),
                  g_vmax := g\<rparr>))"

text \<open>
  The loop. When an iteration raises, the caller still holds the \<open>minmax\<close> list with the
  entries appended so far, so the error carries that list.
\<close>

fun layout_loop ::
  "ext \<Rightarrow> fl option list \<Rightarrow> bool list option \<Rightarrow> bool \<Rightarrow> nat \<Rightarrow> tensor list \<Rightarrow> lstate
     \<Rightarrow> (error \<times> (fl \<times> fl) list) + lstate" where
  "layout_loop ex centers colorbars calc idx [] st = Inr st"
| "layout_loop ex centers colorbars calc idx (t # ts) st =
     (case layout_step ex centers colorbars calc idx t st of
        Inl e \<Rightarrow> Inl (e, minmax st)
      | Inr st' \<Rightarrow> layout_loop ex centers colorbars calc (Suc idx) ts st')"

subsection \<open>The second loop: drawing\<close>

text \<open>Lines 94 to 106: the colour scale of a scalar panel.\<close>

definition panel_scale ::
  "bool \<Rightarrow> fl \<Rightarrow> fl \<times> fl \<Rightarrow> fl option \<Rightarrow> fl option \<times> fl option \<times> cmap" where
  "panel_scale align_scales g mm c =
     (if c \<noteq> None then (None, None, Coolwarm)
      else if align_scales then (Some (Fin 0), Some g, Viridis)
      else (Some (np_clip_0 (fst mm)), Some (np_clip_0 (snd mm)), Viridis))"

text \<open>
  Lines 108 to 110: the keywords \<open>cbar\<close> and \<open>cbar_kws\<close> (shrink and pad) are
  passed only when \<open>colorbars\<close> is given.
\<close>

definition heatmap_kwargs ::
  "bool list option \<Rightarrow> nat \<Rightarrow> error + (bool option \<times> (real \<times> real) option)" where
  "heatmap_kwargs colorbars idx =
     (case colorbars of
        None \<Rightarrow> Inr (None, None)
      | Some cb \<Rightarrow>
          (case py_index cb idx of
             Inl e \<Rightarrow> Inl e
           | Inr b \<Rightarrow> Inr (Some b, Some (0.7, 0.15))))"

text \<open>
  One iteration of the loop over \<open>enumerate(zip(imgs, minmax, centers))\<close>: the error that
  leaves the loop, if any, and the calls made. Whatever is raised inside the \<open>try\<close> is
  caught and answered by the \<open>print\<close>.
\<close>

definition render_panel ::
  "ext \<Rightarrow> axes \<Rightarrow> string list \<Rightarrow> bool \<Rightarrow> fl \<Rightarrow> bool list option \<Rightarrow> nat
     \<Rightarrow> tensor \<times> (fl \<times> fl) \<times> fl option \<Rightarrow> error option \<times> event list" where
  "render_panel ex axs labels align_scales g colorbars idx d =
     (case d of (im, mm, c) \<Rightarrow>
       (case axs_index axs idx of
          Inl e \<Rightarrow> (Some e, [])
        | Inr ax \<Rightarrow>
            (case py_index labels idx of
               Inl e \<Rightarrow> (Some e, [])
             | Inr l \<Rightarrow>
                 if ndim im = 2 then
                   (case panel_scale align_scales g mm c of (vmin1, vmax1, cm) \<Rightarrow>
                     (case heatmap_kwargs colorbars idx of
                        Inl e \<Rightarrow> (None, [SetTitle ax l, Print ''Could not plot, skipping''])
                      | Inr (cb1, kws) \<Rightarrow>
                          (let args = \<lparr>img = im, center = c, cmap = cm, vmin = vmin1,
                                       vmax = vmax1, cbar = cb1, cbar_kws = kws\<rparr> in
                           if heatmap_raises ex args
                           then (None, [SetTitle ax l, Heatmap ax args,
                                        Print ''Could not plot, skipping''])
                           else (None, [SetTitle ax l, Heatmap ax args]))))
                 else if imshow_raises ex im
                 then (Some ImshowError, [SetTitle ax l, Imshow ax im])
                 else (None, [SetTitle ax l, Imshow ax im, SetAxisOff ax]))))"

fun render_loop ::
  "ext \<Rightarrow> axes \<Rightarrow> string list \<Rightarrow> bool \<Rightarrow> fl \<Rightarrow> bool list option \<Rightarrow> nat
     \<Rightarrow> (tensor \<times> (fl \<times> fl) \<times> fl option) list \<Rightarrow> error option \<times> event list" where
  "render_loop ex axs labels align_scales g colorbars idx [] = (None, [])"
| "render_loop ex axs labels align_scales g colorbars idx (d # ds) =
     (case render_panel ex axs labels align_scales g colorbars idx d of
        (Some e, evs) \<Rightarrow> (Some e, evs)
      | (None, evs) \<Rightarrow>
          (case render_loop ex axs labels align_scales g colorbars (Suc idx) ds of
             (r, evs') \<Rightarrow> (r, evs @ evs')))"

subsection \<open>The whole call\<close>

text \<open>
  What a call leaves behind: the error it raised (\<open>None\<close> when it returned the figure),
  the calls it made, the final content of the list it used as \<open>minmax\<close>, and the final
  content of the list object that is the default value of the parameter \<open>minmax\<close>.
\<close>

record call_result =
  raised :: "error option"
  trace :: "event list"
  minmax_out :: "(fl \<times> fl) list"
  default_out :: "(fl \<times> fl) list"

text \<open>
  \<open>np.sum(5 * ratios)\<close>: \<open>ratios\<close> is a Python list, so \<open>5 * ratios\<close> repeats it five
  times.
\<close>

definition fig_width :: "real list \<Rightarrow> real" where
  "fig_width rs = sum_list (concat (replicate 5 rs))"

text \<open>Lines 52 and 53: \<open>centers == None\<close> stands for no center on any panel.\<close>

definition centers_or_default :: "fl option list option \<Rightarrow> nat \<Rightarrow> fl option list" where
  "centers_or_default centers n =
     (case centers of None \<Rightarrow> replicate n None | Some cs \<Rightarrow> cs)"

text \<open>
  Lines 49, 50 and 55: the lists start empty, \<open>g_vmax\<close> at 0; \<open>minmax\<close> is the list
  object the call was given.
\<close>

definition init_state :: "(fl \<times> fl) list \<Rightarrow> lstate" where
  "init_state mm0 = \<lparr>ratios = [], imgs = [], minmax = mm0, g_vmax = Fin 0\<rparr>"

text \<open>
  The body of \<open>generate_heatmap_fig\<close>, run on the list object \<open>mm0\<close> bound to \<open>minmax\<close>:
  the error, the trace and the final content of that list.
\<close>

definition heatmap_fig_body ::
  "ext \<Rightarrow> tensor list \<Rightarrow> string list \<Rightarrow> fl option list option \<Rightarrow> (fl \<times> fl) list \<Rightarrow> bool
     \<Rightarrow> bool list option \<Rightarrow> error option \<times> event list \<times> (fl \<times> fl) list" where
  "heatmap_fig_body ex img_tensors labels centers mm0 align_scales colorbars =
     (let calculate_minmax = (length mm0 = 0);
          centers1 = centers_or_default centers (length img_tensors) in
      (case layout_loop ex centers1 colorbars calculate_minmax 0 img_tensors (init_state mm0) of
         Inl (e, mm) \<Rightarrow> (Some e, [], mm)
       | Inr st \<Rightarrow>
           (let width = fig_width (ratios st);
                sp = Subplots (length (ratios st)) width (ratios st) in
            (case subplots (length (ratios st)) of
               Inl e \<Rightarrow> (Some e, [sp], minmax st)
             | Inr axs \<Rightarrow>
                 (case render_loop ex axs labels align_scales (g_vmax st) colorbars 0
                         (zip (imgs st) (zip (minmax st) centers1)) of
                    (Some e, evs) \<Rightarrow> (Some e, sp # evs, minmax st)
                  | (None, evs) \<Rightarrow> (None, sp # evs @ [TightLayout], minmax st))))))"

text \<open>
  The call. \<open>dflt\<close> is the content of the default list object when the call starts; it
  is created once, when the function is defined, and a call that omits \<open>minmax\<close>
  (\<open>None\<close> here) works on that very object.
\<close>

definition generate_heatmap_fig ::
  "ext \<Rightarrow> (fl \<times> fl) list \<Rightarrow> tensor list \<Rightarrow> string list \<Rightarrow> fl option list option
     \<Rightarrow> (fl \<times> fl) list option \<Rightarrow> bool \<Rightarrow> bool list option \<Rightarrow> call_result" where
  "generate_heatmap_fig ex dflt img_tensors labels centers minmax_arg align_scales colorbars =
     (case minmax_arg of
        None \<Rightarrow>
          (case heatmap_fig_body ex img_tensors labels centers dflt align_scales colorbars of
             (r, evs, mm) \<Rightarrow>
               \<lparr>raised = r, trace = evs, minmax_out = mm, default_out = mm\<rparr>)
      | Some mm0 \<Rightarrow>
          (case heatmap_fig_body ex img_tensors labels centers mm0 align_scales colorbars of
             (r, evs, mm) \<Rightarrow>
               \<lparr>raised = r, trace = evs, minmax_out = mm, default_out = dflt\<rparr>))"

subsection \<open>Reading a call's result\<close>

text \<open>A scalar panel has rank 2 after the squeeze, a color panel rank 3.\<close>

definition is_scalar :: "tensor \<Rightarrow> bool" where
  "is_scalar t = (ndim (squeeze t) = 2)"

definition is_color :: "tensor \<Rightarrow> bool" where
  "is_color t = (ndim (squeeze t) = 3)"

text \<open>The list object a call works on.\<close>

definition minmax_used :: "(fl \<times> fl) list \<Rightarrow> (fl \<times> fl) list option \<Rightarrow> (fl \<times> fl) list" where
  "minmax_used dflt minmax_arg = (case minmax_arg of None \<Rightarrow> dflt | Some mm0 \<Rightarrow> mm0)"

text \<open>The \<open>sns.heatmap\<close> calls of a trace, each with the index of its axis.\<close>

fun heat_calls :: "event list \<Rightarrow> (nat \<times> heat_args) list" where
  "heat_calls [] = []"
| "heat_calls (Heatmap i a # evs) = (i, a) # heat_calls evs"
| "heat_calls (ev # evs) = heat_calls evs"

text \<open>The \<open>imshow\<close> calls of a trace.\<close>

fun imshow_calls :: "event list \<Rightarrow> (nat \<times> tensor) list" where
  "imshow_calls [] = []"
| "imshow_calls (Imshow i t # evs) = (i, t) # imshow_calls evs"
| "imshow_calls (ev # evs) = imshow_calls evs"

text \<open>The width ratios handed to \<open>plt.subplots\<close>.\<close>

fun subplot_ratios :: "event list \<Rightarrow> real list option" where
  "subplot_ratios [] = None"
| "subplot_ratios (Subplots n w rs # evs) = Some rs"
| "subplot_ratios (ev # evs) = subplot_ratios evs"

text \<open>The axes a trace draws on, with \<open>sns.heatmap\<close> or \<open>imshow\<close>, in order.\<close>

fun drawn_axes :: "event list \<Rightarrow> nat list" where
  "drawn_axes [] = []"
| "drawn_axes (Heatmap i a # evs) = i # drawn_axes evs"
| "drawn_axes (Imshow i t # evs) = i # drawn_axes evs"
| "drawn_axes (ev # evs) = drawn_axes evs"

text \<open>The number of \<open>print\<close> calls, and the heatmap calls that raised.\<close>

fun print_count :: "event list \<Rightarrow> nat" where
  "print_count [] = 0"
| "print_count (Print s # evs) = Suc (print_count evs)"
| "print_count (ev # evs) = print_count evs"

definition failed_heat_calls :: "ext \<Rightarrow> event list \<Rightarrow> (nat \<times> heat_args) list" where
  "failed_heat_calls ex evs = filter (\<lambda>(i, a). heatmap_raises ex a) (heat_calls evs)"

text \<open>The scale of every heatmap call: axis, \<open>vmin\<close>, \<open>vmax\<close>.\<close>

definition heat_scales :: "event list \<Rightarrow> (nat \<times> fl option \<times> fl option) list" where
  "heat_scales evs = map (\<lambda>(i, a). (i, vmin a, vmax a)) (heat_calls evs)"

subsection \<open>Conditions on the arguments of a call\<close>

text \<open>
  An iteration of the first loop raises nothing exactly when the panel is scalar and
  \<open>centers\<close> and \<open>colorbars\<close> (if given) reach its index, or it is a color panel that
  \<open>invTrans()\<close> accepts.
\<close>

definition panel_ok :: "ext \<Rightarrow> fl option list \<Rightarrow> bool list option \<Rightarrow> nat \<Rightarrow> tensor \<Rightarrow> bool" where
  "panel_ok ex centers colorbars idx t =
     (if is_scalar t
      then idx < length centers \<and> (case colorbars of None \<Rightarrow> True | Some cb \<Rightarrow> idx < length cb)
      else is_color t \<and> inv_trans ex (squeeze t) \<noteq> None)"

definition panels_ok ::
  "ext \<Rightarrow> fl option list \<Rightarrow> bool list option \<Rightarrow> nat \<Rightarrow> tensor list \<Rightarrow> bool" where
  "panels_ok ex centers colorbars idx ts =
     list_all (\<lambda>(i, t). panel_ok ex centers colorbars i t) (enumerate idx ts)"

text \<open>The raster the first loop stores for a color panel.\<close>

definition color_image :: "ext \<Rightarrow> tensor \<Rightarrow> tensor option" where
  "color_image ex t =
     (case inv_trans ex (squeeze t) of
        None \<Rightarrow> None
      | Some es \<Rightarrow> Some (moveaxis_0_2 ((squeeze t)\<lparr>elems := es\<rparr>)))"

text \<open>
  Drawing a panel lets no error out exactly when the panel has a label and, if it is a
  color panel, \<open>imshow\<close> accepts its raster.
\<close>

definition draw_ok :: "ext \<Rightarrow> string list \<Rightarrow> nat \<Rightarrow> tensor \<Rightarrow> bool" where
  "draw_ok ex labels idx t =
     (idx < length labels \<and>
      (is_scalar t \<or>
       (case color_image ex t of None \<Rightarrow> False | Some im \<Rightarrow> \<not> imshow_raises ex im)))"

definition draws_ok :: "ext \<Rightarrow> string list \<Rightarrow> tensor list \<Rightarrow> bool" where
  "draws_ok ex labels ts = list_all (\<lambda>(i, t). draw_ok ex labels i t) (enumerate 0 ts)"

text \<open>The data values of the scalar panels that have no center, from index \<open>idx\<close> on.\<close>

fun noncentered_values :: "fl option list \<Rightarrow> nat \<Rightarrow> tensor list \<Rightarrow> fl list" where
  "noncentered_values centers idx [] = []"
| "noncentered_values centers idx (t # ts) =
     (if is_scalar t \<and> idx < length centers \<and> centers ! idx = None then elems t else [])
       @ noncentered_values centers (Suc idx) ts"

text \<open>
  The caller asks for a colour bar on a panel when \<open>colorbars\<close> is given and holds
  \<open>True\<close> at its index, and declines it when \<open>colorbars\<close> is given and holds \<open>False\<close>
  there; with no \<open>colorbars\<close> the caller does neither. Seaborn draws the bar unless it
  is passed \<open>cbar=False\<close>.
\<close>

definition colorbar_requested :: "bool list option \<Rightarrow> nat \<Rightarrow> bool" where
  "colorbar_requested colorbars idx = (case colorbars of None \<Rightarrow> False | Some cb \<Rightarrow> cb ! idx)"

definition colorbar_declined :: "bool list option \<Rightarrow> nat \<Rightarrow> bool" where
  "colorbar_declined colorbars idx = (case colorbars of None \<Rightarrow> False | Some cb \<Rightarrow> \<not> cb ! idx)"

definition colorbar_drawn :: "heat_args \<Rightarrow> bool" where
  "colorbar_drawn a = (case cbar a of None \<Rightarrow> True | Some b \<Rightarrow> b)"

subsection \<open>Sample arguments\<close>

text \<open>Libraries that never raise; \<open>invTrans()\<close> is left out of the pixel values.\<close>

definition quiet_ext :: ext where
  "quiet_ext = \<lparr>inv_trans = (\<lambda>t. Some (elems t)),
                 heatmap_raises = (\<lambda>a. False),
                 imshow_raises = (\<lambda>t. False)\<rparr>"

text \<open>The same, but \<open>imshow\<close> raises on every raster.\<close>

definition imshow_failing_ext :: ext where
  "imshow_failing_ext = quiet_ext\<lparr>imshow_raises := (\<lambda>t. True)\<rparr>"

text \<open>The same, but \<open>sns.heatmap\<close> raises on constant data.\<close>

definition constant_failing_ext :: ext where
  "constant_failing_ext =
     quiet_ext\<lparr>heatmap_raises := (\<lambda>a. length (remdups (elems (img a))) \<le> 1)\<rparr>"

text \<open>The same, but \<open>invTrans()\<close> raises unless the tensor has three channels.\<close>

definition channel_checking_ext :: ext where
  "channel_checking_ext =
     quiet_ext\<lparr>inv_trans := (\<lambda>t. if take 1 (shape t) = [3] then Some (elems t) else None)\<rparr>"

definition neg_panel :: tensor where
  "neg_panel = \<lparr>shape = [1, 2, 2], elems = [Fin (- 1), Fin (- 2), Fin (- 3), Fin (- 4)]\<rparr>"

definition pos_panel :: tensor where
  "pos_panel = \<lparr>shape = [1, 2, 2], elems = [Fin 1, Fin 2, Fin 3, Fin 4]\<rparr>"

definition mixed_panel :: tensor where
  "mixed_panel = \<lparr>shape = [2, 2], elems = [Fin (- 1), Fin 0, Fin 1, Fin 5]\<rparr>"

definition flat_panel :: tensor where
  "flat_panel = \<lparr>shape = [2, 2], elems = [Fin 7, Fin 7, Fin 7, Fin 7]\<rparr>"

definition color_panel :: tensor where
  "color_panel = \<lparr>shape = [1, 3, 2, 2], elems = replicate 12 (Fin 0)\<rparr>"

definition rank4_panel :: tensor where
  "rank4_panel = \<lparr>shape = [2, 3, 2, 2], elems = replicate 24 (Fin 0)\<rparr>"

definition five_channel_panel :: tensor where
  "five_channel_panel = \<lparr>shape = [5, 2, 2], elems = replicate 20 (Fin 0)\<rparr>"

subsection \<open>Order of the floating-point values\<close>

lemma fl_le_refl: "a \<noteq> NaN \<Longrightarrow> fl_le a a"
  by (cases a) (simp_all add: fl_le_def)

lemma fl_le_trans: "fl_le a b \<Longrightarrow> fl_le b c \<Longrightarrow> fl_le a c"
  by (cases a; cases b; cases c) (simp_all add: fl_le_def)

lemma fl_le_NInf: "fl_le a NInf \<Longrightarrow> a = NInf"
  by (cases a) (simp_all add: fl_le_def)


lemma np_minimum_lower:
  "a \<noteq> NaN \<Longrightarrow> b \<noteq> NaN \<Longrightarrow>
     fl_le (np_minimum a b) a \<and> fl_le (np_minimum a b) b \<and>
     (np_minimum a b = a \<or> np_minimum a b = b)"
  by (cases a; cases b) (auto simp: np_minimum_def fl_le_def)

lemma np_maximum_upper:
  "a \<noteq> NaN \<Longrightarrow> b \<noteq> NaN \<Longrightarrow>
     fl_le a (np_maximum a b) \<and> fl_le b (np_maximum a b) \<and>
     (np_maximum a b = a \<or> np_maximum a b = b)"
  by (cases a; cases b) (auto simp: np_maximum_def fl_le_def)

lemma foldl_np_minimum_least:
  "NaN \<notin> set (x # xs) \<Longrightarrow>
     foldl np_minimum x xs \<in> set (x # xs) \<and>
     (\<forall>y \<in> set (x # xs). fl_le (foldl np_minimum x xs) y)"
proof (induction xs arbitrary: x)
  case Nil
  then show ?case by (simp add: fl_le_refl)
next
  case (Cons z zs)
  let ?m = "np_minimum x z"
  from Cons.prems have nn: "x \<noteq> NaN" "z \<noteq> NaN" "NaN \<notin> set zs" by auto
  have m: "fl_le ?m x" "fl_le ?m z" "?m = x \<or> ?m = z"
    using np_minimum_lower [OF nn(1,2)] by auto
  have "NaN \<notin> set (?m # zs)" using m(3) nn by auto
  from Cons.IH [OF this]
  have ih: "foldl np_minimum ?m zs \<in> set (?m # zs)"
    "\<forall>y \<in> set (?m # zs). fl_le (foldl np_minimum ?m zs) y" by auto
  have "fl_le (foldl np_minimum ?m zs) ?m" using ih(2) by simp
  then have "fl_le (foldl np_minimum ?m zs) x" "fl_le (foldl np_minimum ?m zs) z"
    using m fl_le_trans by blast+
  then show ?case using ih m(3) by auto
qed

lemma foldl_np_maximum_greatest:
  "NaN \<notin> set (x # xs) \<Longrightarrow>
     foldl np_maximum x xs \<in> set (x # xs) \<and>
     (\<forall>y \<in> set (x # xs). fl_le y (foldl np_maximum x xs))"
proof (induction xs arbitrary: x)
  case Nil
  then show ?case by (simp add: fl_le_refl)
next
  case (Cons z zs)
  let ?m = "np_maximum x z"
  from Cons.prems have nn: "x \<noteq> NaN" "z \<noteq> NaN" "NaN \<notin> set zs" by auto
  have m: "fl_le x ?m" "fl_le z ?m" "?m = x \<or> ?m = z"
    using np_maximum_upper [OF nn(1,2)] by auto
  have "NaN \<notin> set (?m # zs)" using m(3) nn by auto
  from Cons.IH [OF this]
  have ih: "foldl np_maximum ?m zs \<in> set (?m # zs)"
    "\<forall>y \<in> set (?m # zs). fl_le y (foldl np_maximum ?m zs)" by auto
  have "fl_le ?m (foldl np_maximum ?m zs)" using ih(2) by simp
  then have "fl_le x (foldl np_maximum ?m zs)" "fl_le z (foldl np_maximum ?m zs)"
    using m fl_le_trans by blast+
  then show ?case using ih m(3) by auto
qed

lemma np_min_least:
  assumes "np_min ys = Inr m" and "NaN \<notin> set ys"
  shows "m \<in> set ys \<and> (\<forall>y \<in> set ys. fl_le m y)"
proof (cases ys)
  case Nil
  with assms show ?thesis by simp
next
  case (Cons x xs)
  with assms have "m = foldl np_minimum x xs" by simp
  then show ?thesis using foldl_np_minimum_least [of x xs] assms(2) Cons by simp
qed

lemma np_max_greatest:
  assumes "np_max ys = Inr m" and "NaN \<notin> set ys"
  shows "m \<in> set ys \<and> (\<forall>y \<in> set ys. fl_le y m)"
proof (cases ys)
  case Nil
  with assms show ?thesis by simp
next
  case (Cons x xs)
  with assms have "m = foldl np_maximum x xs" by simp
  then show ?thesis using foldl_np_maximum_greatest [of x xs] assms(2) Cons by simp
qed

lemma np_min_append: "\<exists>m. np_min (np_append xs v) = Inr m"
  by (cases xs) (simp_all add: np_append_def)

lemma np_max_append: "\<exists>m. np_max (np_append xs v) = Inr m"
  by (cases xs) (simp_all add: np_append_def)

lemma np_clip_0_ge: "x \<noteq> NaN \<Longrightarrow> fl_le x (np_clip_0 x) \<and> fl_le (Fin 0) (np_clip_0 x)"
  by (cases x) (auto simp: np_clip_0_def np_maximum_def fl_le_def)

lemma np_clip_0_le: "fl_le (Fin 0) d \<Longrightarrow> fl_le m d \<Longrightarrow> fl_le (np_clip_0 m) d"
  by (cases m; cases d) (auto simp: np_clip_0_def np_maximum_def fl_le_def)

lemma py_max_cases:
  "a \<noteq> NaN \<Longrightarrow> b \<noteq> NaN \<Longrightarrow>
     fl_le a (py_max a b) \<and> fl_le b (py_max a b) \<and> (py_max a b = a \<or> py_max a b = b)"
  by (cases a; cases b) (auto simp: py_max_def fl_le_def)


text \<open>The global maximum after the scan of one scalar panel with no center.\<close>

lemma py_max_scan:
  assumes v2: "np_max (np_append es NInf) = Inr v2" and nn: "NaN \<notin> set es" and g: "g \<noteq> NaN"
  shows "py_max v2 g \<noteq> NaN" and "fl_le g (py_max v2 g)"
    and "\<forall>d \<in> set es. fl_le d (py_max v2 g)"
    and "py_max v2 g = g \<or> py_max v2 g \<in> set es"
proof -
  have nn': "NaN \<notin> set (np_append es NInf)" using nn by (simp add: np_append_def)
  from np_max_greatest [OF v2 nn'] have
    v2in: "v2 \<in> set es \<or> v2 = NInf" and v2up: "\<forall>y \<in> set es. fl_le y v2"
    by (auto simp: np_append_def)
  have v2n: "v2 \<noteq> NaN" using v2in nn by auto
  note pm = py_max_cases [OF v2n g]
  show "py_max v2 g \<noteq> NaN" using pm v2n g by auto
  show "fl_le g (py_max v2 g)" using pm by simp
  show "\<forall>d \<in> set es. fl_le d (py_max v2 g)" using v2up pm fl_le_trans by blast
  show "py_max v2 g = g \<or> py_max v2 g \<in> set es"
  proof (cases "py_max v2 g = g")
    case True
    then show ?thesis by simp
  next
    case False
    with pm have eq: "py_max v2 g = v2" by auto
    have "v2 \<noteq> NInf"
    proof
      assume "v2 = NInf"
      with pm eq have "fl_le g NInf" by simp
      then have "g = NInf" by (rule fl_le_NInf)
      with eq \<open>v2 = NInf\<close> False show False by simp
    qed
    with v2in eq show ?thesis by simp
  qed
qed

subsection \<open>One iteration of the first loop\<close>

lemma elems_squeeze: "elems (squeeze t) = elems t"
  by (simp add: squeeze_def)

lemma ndim_moveaxis_0_2: "ndim t = 3 \<Longrightarrow> ndim (moveaxis_0_2 t) = 3"
  by (auto simp: ndim_def moveaxis_0_2_def split: list.splits)

lemma ndim_elems_update: "ndim (t\<lparr>elems := es\<rparr>) = ndim t"
  by (simp add: ndim_def)

lemma scan_panel_scalar:
  assumes "scan_panel ex centers colorbars idx t g = Inr (r, im, v1, v2, g')"
    and "is_scalar t"
  shows "im = squeeze t"
    and "idx < length centers"
    and "colorbars = None \<or> (\<exists>cb. colorbars = Some cb \<and> idx < length cb)"
    and "r = (if (\<exists>cb. colorbars = Some cb \<and> \<not> cb ! idx) then 1 else 1.25)"
    and "centers ! idx \<noteq> None \<Longrightarrow> v1 = PInf \<and> v2 = NInf \<and> g' = g"
    and "centers ! idx = None \<Longrightarrow>
           np_min (np_append (elems (squeeze t)) PInf) = Inr v1 \<and>
           np_max (np_append (elems (squeeze t)) NInf) = Inr v2 \<and> g' = py_max v2 g"
  using assms
  by (auto simp: scan_panel_def is_scalar_def colorbar_off_def py_index_def Let_def
      split: sum.splits option.splits if_splits)

lemma scan_panel_not_scalar:
  assumes "scan_panel ex centers colorbars idx t g = Inr (r, im, v1, v2, g')"
    and "\<not> is_scalar t"
  shows "is_color t" and "r = 1" and "ndim im = 3" and "v1 = PInf" and "v2 = NInf" and "g' = g"
    and "\<exists>es. inv_trans ex (squeeze t) = Some es \<and> im = moveaxis_0_2 ((squeeze t)\<lparr>elems := es\<rparr>)"
  using assms
  by (auto simp: scan_panel_def is_scalar_def is_color_def Let_def ndim_moveaxis_0_2 ndim_elems_update
      split: sum.splits option.splits if_splits)

lemma scan_panel_ndim:
  assumes "scan_panel ex centers colorbars idx t g = Inr (r, im, v1, v2, g')"
  shows "ndim im = 2 \<longleftrightarrow> is_scalar t"
proof (cases "is_scalar t")
  case True
  then show ?thesis using scan_panel_scalar(1) [OF assms True] by (simp add: is_scalar_def)
next
  case False
  then show ?thesis using scan_panel_not_scalar(3) [OF assms False] by simp
qed

lemma scan_panel_bad_rank:
  "\<not> is_scalar t \<Longrightarrow> \<not> is_color t \<Longrightarrow> scan_panel ex centers colorbars idx t g = Inl UnsupportedRank"
  by (simp add: scan_panel_def is_scalar_def is_color_def)

lemma scan_panel_ok_iff:
  "(\<exists>res. scan_panel ex centers colorbars idx t g = Inr res) \<longleftrightarrow> panel_ok ex centers colorbars idx t"
proof (cases "is_scalar t")
  case True
  obtain m1 where m1: "np_min (np_append (elems (squeeze t)) PInf) = Inr m1"
    using np_min_append by blast
  obtain m2 where m2: "np_max (np_append (elems (squeeze t)) NInf) = Inr m2"
    using np_max_append by blast
  from True m1 m2 show ?thesis
    by (auto simp: scan_panel_def panel_ok_def is_scalar_def colorbar_off_def py_index_def Let_def
        split: sum.splits option.splits intro: exI [of _ "5 / 4 :: real"])
next
  case False
  then show ?thesis
    by (auto simp: scan_panel_def panel_ok_def is_scalar_def is_color_def Let_def
        split: option.splits)
qed

lemma scan_panel_error:
  assumes "scan_panel ex centers colorbars idx t g = Inl e"
  shows "scan_panel ex centers colorbars idx t g' = Inl e"
    and "e = UnsupportedRank \<or> e = IndexError \<or> e = TransformError"
proof -
  obtain m1 where m1: "np_min (np_append (elems (squeeze t)) PInf) = Inr m1"
    using np_min_append by blast
  obtain m2 where m2: "np_max (np_append (elems (squeeze t)) NInf) = Inr m2"
    using np_max_append by blast
  from assms m1 m2 show "scan_panel ex centers colorbars idx t g' = Inl e"
    by (auto simp: scan_panel_def colorbar_off_def py_index_def Let_def
        split: sum.splits option.splits if_splits)
  from assms m1 m2 show "e = UnsupportedRank \<or> e = IndexError \<or> e = TransformError"
    by (auto simp: scan_panel_def colorbar_off_def py_index_def Let_def
        split: sum.splits option.splits if_splits)
qed

lemma bad_rank_not_ok:
  "\<not> is_scalar t \<Longrightarrow> \<not> is_color t \<Longrightarrow> \<not> panel_ok ex centers colorbars idx t"
  by (simp add: panel_ok_def)

lemma layout_step_Inr:
  "layout_step ex centers colorbars calc idx t st = Inr st' \<longleftrightarrow>
     (\<exists>r im v1 v2 g'. scan_panel ex centers colorbars idx t (g_vmax st) = Inr (r, im, v1, v2, g') \<and>
        st' = st\<lparr>ratios := ratios st @ [r], imgs := imgs st @ [im],
                  minmax := (if calc then minmax st @ [(v1, v2)] else minmax st),
                  g_vmax := g'\<rparr>)"
  by (auto simp: layout_step_def split: sum.splits)

lemma layout_step_Inl:
  "layout_step ex centers colorbars calc idx t st = Inl e \<longleftrightarrow>
     scan_panel ex centers colorbars idx t (g_vmax st) = Inl e"
  by (auto simp: layout_step_def split: sum.splits)

subsection \<open>The first loop\<close>

lemma layout_loop_prefix:
  assumes "layout_loop ex centers colorbars calc idx ts st = Inr st'"
  shows "\<exists>rs ims mms. ratios st' = ratios st @ rs \<and> length rs = length ts \<and>
           imgs st' = imgs st @ ims \<and> length ims = length ts \<and>
           minmax st' = minmax st @ mms \<and> length mms = (if calc then length ts else 0)"
  using assms
proof (induction ts arbitrary: idx st)
  case Nil
  then show ?case by simp
next
  case (Cons t ts)
  from Cons.prems obtain st1 where
    s1: "layout_step ex centers colorbars calc idx t st = Inr st1" and
    l1: "layout_loop ex centers colorbars calc (Suc idx) ts st1 = Inr st'"
    by (auto split: sum.splits)
  from s1 obtain r im v1 v2 g' where
    st1: "st1 = st\<lparr>ratios := ratios st @ [r], imgs := imgs st @ [im],
                  minmax := (if calc then minmax st @ [(v1, v2)] else minmax st),
                  g_vmax := g'\<rparr>"
    unfolding layout_step_Inr by blast
  from Cons.IH [OF l1] obtain rs ims mms where
    ih: "ratios st' = ratios st1 @ rs" "length rs = length ts"
        "imgs st' = imgs st1 @ ims" "length ims = length ts"
        "minmax st' = minmax st1 @ mms" "length mms = (if calc then length ts else 0)"
    by blast
  show ?case
  proof (intro exI conjI)
    show "ratios st' = ratios st @ (r # rs)" using ih(1) st1 by simp
    show "length (r # rs) = length (t # ts)" using ih(2) by simp
    show "imgs st' = imgs st @ (im # ims)" using ih(3) st1 by simp
    show "length (im # ims) = length (t # ts)" using ih(4) by simp
    show "minmax st' = minmax st @ ((if calc then [(v1, v2)] else []) @ mms)"
      using ih(5) st1 by simp
    show "length ((if calc then [(v1, v2)] else []) @ mms) = (if calc then length (t # ts) else 0)"
      using ih(6) by simp
  qed
qed

lemma layout_loop_lengths:
  assumes "layout_loop ex centers colorbars calc idx ts st = Inr st'"
  shows "length (ratios st') = length (ratios st) + length ts"
    and "length (imgs st') = length (imgs st) + length ts"
    and "length (minmax st') = length (minmax st) + (if calc then length ts else 0)"
    and "\<not> calc \<Longrightarrow> minmax st' = minmax st"
  using layout_loop_prefix [OF assms] by auto

lemma layout_loop_nth:
  assumes "layout_loop ex centers colorbars calc idx ts st = Inr st'" and "j < length ts"
  shows "\<exists>r im v1 v2 g g'.
           scan_panel ex centers colorbars (idx + j) (ts ! j) g = Inr (r, im, v1, v2, g') \<and>
           ratios st' ! (length (ratios st) + j) = r \<and>
           imgs st' ! (length (imgs st) + j) = im \<and>
           (calc \<longrightarrow> minmax st' ! (length (minmax st) + j) = (v1, v2))"
  using assms
proof (induction ts arbitrary: idx st j)
  case Nil
  then show ?case by simp
next
  case (Cons t ts)
  from Cons.prems(1) obtain st1 where
    s1: "layout_step ex centers colorbars calc idx t st = Inr st1" and
    l1: "layout_loop ex centers colorbars calc (Suc idx) ts st1 = Inr st'"
    by (auto split: sum.splits)
  from s1 obtain r im v1 v2 g' where
    sc: "scan_panel ex centers colorbars idx t (g_vmax st) = Inr (r, im, v1, v2, g')" and
    st1: "st1 = st\<lparr>ratios := ratios st @ [r], imgs := imgs st @ [im],
                  minmax := (if calc then minmax st @ [(v1, v2)] else minmax st),
                  g_vmax := g'\<rparr>"
    unfolding layout_step_Inr by blast
  from layout_loop_prefix [OF l1] obtain rs ims mms where
    pre: "ratios st' = ratios st1 @ rs" "imgs st' = imgs st1 @ ims" "minmax st' = minmax st1 @ mms"
    by blast
  show ?case
  proof (cases j)
    case 0
    have "ratios st' ! length (ratios st) = r" using pre(1) st1 by (simp add: nth_append)
    moreover have "imgs st' ! length (imgs st) = im" using pre(2) st1 by (simp add: nth_append)
    moreover have "calc \<longrightarrow> minmax st' ! length (minmax st) = (v1, v2)"
      using pre(3) st1 by (simp add: nth_append)
    ultimately show ?thesis using sc 0 by auto
  next
    case (Suc k)
    with Cons.prems(2) have k: "k < length ts" by simp
    from Cons.IH [OF l1 k] obtain r2 im2 w1 w2 h h' where
      ih: "scan_panel ex centers colorbars (Suc idx + k) (ts ! k) h = Inr (r2, im2, w1, w2, h')"
          "ratios st' ! (length (ratios st1) + k) = r2"
          "imgs st' ! (length (imgs st1) + k) = im2"
          "calc \<longrightarrow> minmax st' ! (length (minmax st1) + k) = (w1, w2)"
      by blast
    have "ratios st' ! (length (ratios st) + j) = r2" using ih(2) st1 Suc by simp
    moreover have "imgs st' ! (length (imgs st) + j) = im2" using ih(3) st1 Suc by simp
    moreover have "calc \<longrightarrow> minmax st' ! (length (minmax st) + j) = (w1, w2)"
      using ih(4) st1 Suc by simp
    ultimately show ?thesis using ih(1) Suc by auto
  qed
qed

lemma panels_ok_nth:
  "panels_ok ex centers colorbars idx ts \<Longrightarrow> j < length ts \<Longrightarrow>
     panel_ok ex centers colorbars (idx + j) (ts ! j)"
  by (auto simp: panels_ok_def list_all_length nth_enumerate_eq)

lemma panels_ok_take:
  "panels_ok ex centers colorbars idx ts \<Longrightarrow> panels_ok ex centers colorbars idx (take k ts)"
  by (auto simp: panels_ok_def list_all_length nth_enumerate_eq)

lemma layout_loop_ok_iff:
  "(\<exists>st'. layout_loop ex centers colorbars calc idx ts st = Inr st') \<longleftrightarrow>
     panels_ok ex centers colorbars idx ts"
proof (induction ts arbitrary: idx st)
  case Nil
  show ?case by (simp add: panels_ok_def)
next
  case (Cons t ts)
  show ?case
  proof (cases "layout_step ex centers colorbars calc idx t st")
    case (Inl e)
    then have "\<not> panel_ok ex centers colorbars idx t"
      using scan_panel_ok_iff [of ex centers colorbars idx t "g_vmax st"]
      by (auto simp: layout_step_Inl)
    with Inl show ?thesis by (simp add: panels_ok_def)
  next
    case (Inr st1)
    then have "panel_ok ex centers colorbars idx t"
      using scan_panel_ok_iff [of ex centers colorbars idx t "g_vmax st"]
      by (auto simp: layout_step_Inr)
    with Inr Cons.IH [of "Suc idx" st1] show ?thesis by (simp add: panels_ok_def)
  qed
qed

lemma layout_loop_Inl:
  assumes "layout_loop ex centers cb calc idx ts st = Inl (e, mm)"
  shows "\<exists>k st1. k < length ts \<and>
           layout_loop ex centers cb calc idx (take k ts) st = Inr st1 \<and> mm = minmax st1 \<and>
           scan_panel ex centers cb (idx + k) (ts ! k) (g_vmax st1) = Inl e"
  using assms
proof (induction ts arbitrary: idx st)
  case Nil
  then show ?case by simp
next
  case (Cons t ts)
  show ?case
  proof (cases "layout_step ex centers cb calc idx t st")
    case (Inl e')
    with Cons.prems have "e' = e" "mm = minmax st" by simp_all
    with Inl have "scan_panel ex centers cb (idx + 0) ((t # ts) ! 0) (g_vmax st) = Inl e"
      by (simp add: layout_step_Inl)
    then show ?thesis using \<open>mm = minmax st\<close>
      by (intro exI [of _ 0] exI [of _ st]) simp
  next
    case (Inr st1)
    with Cons.prems have "layout_loop ex centers cb calc (Suc idx) ts st1 = Inl (e, mm)" by simp
    from Cons.IH [OF this] obtain k st2 where
      k: "k < length ts" "layout_loop ex centers cb calc (Suc idx) (take k ts) st1 = Inr st2"
         "mm = minmax st2" "scan_panel ex centers cb (Suc idx + k) (ts ! k) (g_vmax st2) = Inl e"
      by blast
    show ?thesis
      using k Inr by (intro exI [of _ "Suc k"] exI [of _ st2]) simp
  qed
qed

lemma layout_loop_calc_irrelevant:
  "layout_loop ex centers colorbars False idx ts (st\<lparr>minmax := M\<rparr>) =
     (case layout_loop ex centers colorbars True idx ts st of
        Inl (e, mm) \<Rightarrow> Inl (e, M)
      | Inr st' \<Rightarrow> Inr (st'\<lparr>minmax := M\<rparr>))"
proof (induction ts arbitrary: idx st)
  case Nil
  show ?case by simp
next
  case (Cons t ts)
  show ?case
  proof (cases "scan_panel ex centers colorbars idx t (g_vmax st)")
    case (Inl e)
    then show ?thesis by (simp add: layout_step_def)
  next
    case (Inr res)
    obtain r im v1 v2 g' where res: "res = (r, im, v1, v2, g')" by (cases res) auto
    let ?st1 = "st\<lparr>ratios := ratios st @ [r], imgs := imgs st @ [im],
                   minmax := minmax st @ [(v1, v2)], g_vmax := g'\<rparr>"
    have a: "layout_step ex centers colorbars True idx t st = Inr ?st1"
      using Inr res by (simp add: layout_step_def)
    have b: "layout_step ex centers colorbars False idx t (st\<lparr>minmax := M\<rparr>) = Inr (?st1\<lparr>minmax := M\<rparr>)"
      using Inr res by (simp add: layout_step_def)
    show ?thesis using a b Cons.IH [of "Suc idx" ?st1] by simp
  qed
qed

lemma noncentered_values_nth:
  assumes "j < length ts" and "is_scalar (ts ! j)" and "idx + j < length cs"
    and "cs ! (idx + j) = None"
  shows "set (elems (ts ! j)) \<subseteq> set (noncentered_values cs idx ts)"
  using assms
proof (induction ts arbitrary: idx j)
  case Nil
  then show ?case by simp
next
  case (Cons t ts)
  show ?case
  proof (cases j)
    case 0
    with Cons.prems show ?thesis by simp
  next
    case (Suc k)
    with Cons.prems have "k < length ts" "is_scalar (ts ! k)" "Suc idx + k < length cs"
      "cs ! (Suc idx + k) = None" by simp_all
    from Cons.IH [OF this] Suc show ?thesis by auto
  qed
qed

lemma layout_loop_g_vmax:
  assumes "layout_loop ex centers cb calc idx ts st = Inr st'"
    and "NaN \<notin> set (noncentered_values centers idx ts)"
    and "g_vmax st \<noteq> NaN"
  shows "g_vmax st' \<noteq> NaN \<and> fl_le (g_vmax st) (g_vmax st') \<and>
         (\<forall>d \<in> set (noncentered_values centers idx ts). fl_le d (g_vmax st')) \<and>
         (g_vmax st' = g_vmax st \<or> g_vmax st' \<in> set (noncentered_values centers idx ts))"
  using assms
proof (induction ts arbitrary: idx st)
  case Nil
  then show ?case by (simp add: fl_le_refl)
next
  case (Cons t ts)
  from Cons.prems(1) obtain st1 where
    s1: "layout_step ex centers cb calc idx t st = Inr st1" and
    l1: "layout_loop ex centers cb calc (Suc idx) ts st1 = Inr st'"
    by (auto split: sum.splits)
  from s1 obtain r im v1 v2 where
    sc: "scan_panel ex centers cb idx t (g_vmax st) = Inr (r, im, v1, v2, g_vmax st1)"
    unfolding layout_step_Inr by auto
  define here where
    "here = (if is_scalar t \<and> idx < length centers \<and> centers ! idx = None then elems t else [])"
  define rest where "rest = noncentered_values centers (Suc idx) ts"
  have vals: "noncentered_values centers idx (t # ts) = here @ rest"
    by (simp add: here_def rest_def)
  have nn_here: "NaN \<notin> set here" and nn_rest: "NaN \<notin> set rest"
    using Cons.prems(2) unfolding vals by auto
  have step: "g_vmax st1 \<noteq> NaN \<and> fl_le (g_vmax st) (g_vmax st1) \<and>
              (\<forall>d \<in> set here. fl_le d (g_vmax st1)) \<and>
              (g_vmax st1 = g_vmax st \<or> g_vmax st1 \<in> set here)"
  proof (cases "is_scalar t \<and> idx < length centers \<and> centers ! idx = None")
    case True
    then have sca: "is_scalar t" and cn: "centers ! idx = None" by auto
    have h: "here = elems t" unfolding here_def using True by (rule if_P)
    from scan_panel_scalar(6) [OF sc sca cn] have
      v2: "np_max (np_append (elems t) NInf) = Inr v2" and g1': "g_vmax st1 = py_max v2 (g_vmax st)"
      by (simp_all add: elems_squeeze)
    have nn: "NaN \<notin> set (elems t)" using nn_here h by simp
    from py_max_scan [OF v2 nn Cons.prems(3)] show ?thesis unfolding h g1' by blast
  next
    case False
    have geq: "g_vmax st1 = g_vmax st"
    proof (cases "is_scalar t")
      case True
      from scan_panel_scalar(2) [OF sc True] False True have "centers ! idx \<noteq> None" by simp
      from scan_panel_scalar(5) [OF sc True this] show ?thesis by blast
    next
      case False
      from scan_panel_not_scalar(6) [OF sc False] show ?thesis .
    qed
    have h: "here = []" unfolding here_def using False by (rule if_not_P)
    show ?thesis unfolding h geq using Cons.prems(3) fl_le_refl by simp
  qed
  then have g1n: "g_vmax st1 \<noteq> NaN" by blast
  from Cons.IH [OF l1 nn_rest [unfolded rest_def] g1n] have
    ih: "g_vmax st' \<noteq> NaN" "fl_le (g_vmax st1) (g_vmax st')"
        "\<forall>d \<in> set rest. fl_le d (g_vmax st')"
        "g_vmax st' = g_vmax st1 \<or> g_vmax st' \<in> set rest"
    unfolding rest_def by blast+
  have a: "fl_le (g_vmax st) (g_vmax st')" using step ih(2) fl_le_trans by blast
  have b: "\<forall>d \<in> set (here @ rest). fl_le d (g_vmax st')"
  proof
    fix d assume "d \<in> set (here @ rest)"
    then consider "d \<in> set here" | "d \<in> set rest" by auto
    then show "fl_le d (g_vmax st')"
    proof cases
      case 1
      with step have "fl_le d (g_vmax st1)" by blast
      then show ?thesis using ih(2) by (rule fl_le_trans)
    next
      case 2
      with ih(3) show ?thesis by blast
    qed
  qed
  have c: "g_vmax st' = g_vmax st \<or> g_vmax st' \<in> set (here @ rest)"
  proof (cases "g_vmax st' = g_vmax st1")
    case True
    with step show ?thesis by auto
  next
    case False
    with ih(4) show ?thesis by simp
  qed
  show ?case unfolding vals using ih(1) a b c by blast
qed

subsection \<open>The second loop\<close>

lemma heat_calls_append: "heat_calls (xs @ ys) = heat_calls xs @ heat_calls ys"
  by (induction xs rule: heat_calls.induct) simp_all

lemma imshow_calls_append: "imshow_calls (xs @ ys) = imshow_calls xs @ imshow_calls ys"
  by (induction xs rule: imshow_calls.induct) simp_all

lemma drawn_axes_append: "drawn_axes (xs @ ys) = drawn_axes xs @ drawn_axes ys"
  by (induction xs rule: drawn_axes.induct) simp_all

lemma print_count_append: "print_count (xs @ ys) = print_count xs + print_count ys"
  by (induction xs rule: print_count.induct) simp_all

lemma failed_heat_calls_append:
  "failed_heat_calls ex (xs @ ys) = failed_heat_calls ex xs @ failed_heat_calls ex ys"
  by (simp add: failed_heat_calls_def heat_calls_append)

lemma heat_calls_mem: "(i, a) \<in> set (heat_calls evs) \<longleftrightarrow> Heatmap i a \<in> set evs"
  by (induction evs rule: heat_calls.induct) auto

lemma imshow_calls_mem: "(i, t) \<in> set (imshow_calls evs) \<longleftrightarrow> Imshow i t \<in> set evs"
  by (induction evs rule: imshow_calls.induct) auto

lemma axs_index_Inr: "axs_index axs idx = Inr ax \<Longrightarrow> ax = idx"
  by (auto simp: axs_index_def split: axes.splits if_splits)


lemma panel_scale_aligned: "panel_scale True g mm None = (Some (Fin 0), Some g, Viridis)"
  by (simp add: panel_scale_def)

lemma panel_scale_clipped:
  "panel_scale False g mm None = (Some (np_clip_0 (fst mm)), Some (np_clip_0 (snd mm)), Viridis)"
  by (simp add: panel_scale_def)

lemma render_panel_heat_call:
  assumes "(i, a) \<in> set (heat_calls (snd (render_panel ex axs ls al g cb idx (im, mm, c))))"
  shows "i = idx" and "img a = im" and "center a = c" and "ndim im = 2"
    and "(vmin a, vmax a, cmap a) = panel_scale al g mm c"
    and "heatmap_kwargs cb idx = Inr (cbar a, cbar_kws a)"
  using assms
  by (auto simp: render_panel_def Let_def dest: axs_index_Inr
      split: sum.splits prod.splits if_splits)

lemma render_panel_returns_iff:
  "fst (render_panel ex axs ls al g cb idx (im, mm, c)) = None \<longleftrightarrow>
     axs_index axs idx = Inr idx \<and> idx < length ls \<and> (ndim im = 2 \<or> \<not> imshow_raises ex im)"
  by (auto simp: render_panel_def py_index_def Let_def dest: axs_index_Inr
      split: sum.splits prod.splits)

lemma render_panel_drawn:
  assumes "fst (render_panel ex axs ls al g cb idx (im, mm, c)) = None"
    and "ndim im = 2 \<Longrightarrow> cb = None \<or> (\<exists>bs. cb = Some bs \<and> idx < length bs)"
  shows "drawn_axes (snd (render_panel ex axs ls al g cb idx (im, mm, c))) = [idx]"
  using assms
  by (auto simp: render_panel_def heatmap_kwargs_def py_index_def Let_def dest: axs_index_Inr
      split: sum.splits prod.splits if_splits)

lemma render_panel_prints:
  assumes "ndim im = 2 \<Longrightarrow> cb = None \<or> (\<exists>bs. cb = Some bs \<and> idx < length bs)"
  shows "print_count (snd (render_panel ex axs ls al g cb idx (im, mm, c))) =
         length (failed_heat_calls ex (snd (render_panel ex axs ls al g cb idx (im, mm, c))))"
  using assms
  by (auto simp: render_panel_def heatmap_kwargs_def py_index_def Let_def failed_heat_calls_def
      split: sum.splits prod.splits if_splits)

lemma render_panel_heat_call_made:
  assumes "fst (render_panel ex axs ls al g cb idx (im, mm, c)) = None"
    and "ndim im = 2"
    and "cb = None \<or> (\<exists>bs. cb = Some bs \<and> idx < length bs)"
  shows "\<exists>a. Heatmap idx a \<in> set (snd (render_panel ex axs ls al g cb idx (im, mm, c)))"
  using assms
  by (auto simp: render_panel_def heatmap_kwargs_def py_index_def Let_def dest: axs_index_Inr
      split: sum.splits prod.splits if_splits)

lemma render_panel_imshow_made:
  assumes "fst (render_panel ex axs ls al g cb idx (im, mm, c)) = None"
    and "ndim im \<noteq> 2"
  shows "Imshow idx im \<in> set (snd (render_panel ex axs ls al g cb idx (im, mm, c)))"
  using assms
  by (auto simp: render_panel_def py_index_def Let_def dest: axs_index_Inr
      split: sum.splits prod.splits if_splits)

lemma render_loop_heat_call:
  assumes "(i, a) \<in> set (heat_calls (snd (render_loop ex axs ls al g cb idx ds)))"
  shows "\<exists>j < length ds. i = idx + j \<and>
           (i, a) \<in> set (heat_calls (snd (render_panel ex axs ls al g cb (idx + j) (ds ! j))))"
  using assms
proof (induction ds arbitrary: idx)
  case Nil
  then show ?case by simp
next
  case (Cons d ds)
  obtain r evs where rp: "render_panel ex axs ls al g cb idx d = (r, evs)"
    by (cases "render_panel ex axs ls al g cb idx d") auto
  show ?case
  proof (cases "(i, a) \<in> set (heat_calls evs)")
    case True
    then have "(i, a) \<in> set (heat_calls (snd (render_panel ex axs ls al g cb (idx + 0) ((d # ds) ! 0))))"
      using rp by simp
    moreover have "i = idx + 0"
      using True rp render_panel_heat_call(1) [of i a ex axs ls al g cb idx "fst d" "fst (snd d)" "snd (snd d)"]
      by simp
    ultimately show ?thesis by (intro exI [of _ 0]) simp
  next
    case False
    obtain r2 evs2 where rl: "render_loop ex axs ls al g cb (Suc idx) ds = (r2, evs2)"
      by (cases "render_loop ex axs ls al g cb (Suc idx) ds") auto
    from Cons.prems rp rl False have "(i, a) \<in> set (heat_calls evs2)"
      by (cases r) (auto simp: heat_calls_append)
    then have "(i, a) \<in> set (heat_calls (snd (render_loop ex axs ls al g cb (Suc idx) ds)))"
      using rl by simp
    from Cons.IH [OF this] obtain j where
      j: "j < length ds" "i = Suc idx + j"
         "(i, a) \<in> set (heat_calls (snd (render_panel ex axs ls al g cb (Suc idx + j) (ds ! j))))"
      by blast
    show ?thesis
      using j by (intro exI [of _ "Suc j"]) simp
  qed
qed

lemma render_loop_returns:
  assumes "\<forall>j < length ds. fst (render_panel ex axs ls al g cb (idx + j) (ds ! j)) = None"
  shows "fst (render_loop ex axs ls al g cb idx ds) = None"
  using assms
proof (induction ds arbitrary: idx)
  case Nil
  show ?case by simp
next
  case (Cons d ds)
  from Cons.prems have h: "fst (render_panel ex axs ls al g cb idx d) = None" by force
  have "\<forall>j < length ds. fst (render_panel ex axs ls al g cb (Suc idx + j) (ds ! j)) = None"
  proof (intro allI impI)
    fix j assume "j < length ds"
    then have "Suc j < length (d # ds)" by simp
    from Cons.prems [rule_format, OF this] show
      "fst (render_panel ex axs ls al g cb (Suc idx + j) (ds ! j)) = None" by simp
  qed
  from Cons.IH [OF this] have t: "fst (render_loop ex axs ls al g cb (Suc idx) ds) = None" .
  obtain evs where rp: "render_panel ex axs ls al g cb idx d = (None, evs)"
    using h by (cases "render_panel ex axs ls al g cb idx d") auto
  obtain evs2 where rl: "render_loop ex axs ls al g cb (Suc idx) ds = (None, evs2)"
    using t by (cases "render_loop ex axs ls al g cb (Suc idx) ds") auto
  show ?case by (simp add: rp rl)
qed

lemma render_loop_drawn:
  assumes "\<forall>j < length ds. fst (render_panel ex axs ls al g cb (idx + j) (ds ! j)) = None"
    and "\<forall>j < length ds. drawn_axes (snd (render_panel ex axs ls al g cb (idx + j) (ds ! j))) = [idx + j]"
  shows "drawn_axes (snd (render_loop ex axs ls al g cb idx ds)) = [idx ..< idx + length ds]"
  using assms
proof (induction ds arbitrary: idx)
  case Nil
  show ?case by simp
next
  case (Cons d ds)
  from Cons.prems(1) have h: "fst (render_panel ex axs ls al g cb idx d) = None" by force
  from Cons.prems(2) have d0: "drawn_axes (snd (render_panel ex axs ls al g cb idx d)) = [idx]" by force
  have a: "\<forall>j < length ds. fst (render_panel ex axs ls al g cb (Suc idx + j) (ds ! j)) = None"
  proof (intro allI impI)
    fix j assume "j < length ds"
    then have "Suc j < length (d # ds)" by simp
    from Cons.prems(1) [rule_format, OF this] show
      "fst (render_panel ex axs ls al g cb (Suc idx + j) (ds ! j)) = None" by simp
  qed
  have b: "\<forall>j < length ds. drawn_axes (snd (render_panel ex axs ls al g cb (Suc idx + j) (ds ! j))) = [Suc idx + j]"
  proof (intro allI impI)
    fix j assume "j < length ds"
    then have "Suc j < length (d # ds)" by simp
    from Cons.prems(2) [rule_format, OF this] show
      "drawn_axes (snd (render_panel ex axs ls al g cb (Suc idx + j) (ds ! j))) = [Suc idx + j]" by simp
  qed
  obtain evs where rp: "render_panel ex axs ls al g cb idx d = (None, evs)"
    using h by (cases "render_panel ex axs ls al g cb idx d") auto
  obtain r2 evs2 where rl: "render_loop ex axs ls al g cb (Suc idx) ds = (r2, evs2)"
    by (cases "render_loop ex axs ls al g cb (Suc idx) ds") auto
  have "drawn_axes (snd (render_loop ex axs ls al g cb idx (d # ds))) =
          idx # drawn_axes (snd (render_loop ex axs ls al g cb (Suc idx) ds))"
    using d0 by (simp add: rp rl drawn_axes_append)
  also have "\<dots> = idx # [Suc idx ..< Suc idx + length ds]"
    using Cons.IH [OF a b] by simp
  also have "\<dots> = [idx ..< idx + length (d # ds)]"
    by (simp add: upt_rec)
  finally show ?case .
qed

lemma render_loop_prints:
  assumes "\<forall>j < length ds. print_count (snd (render_panel ex axs ls al g cb (idx + j) (ds ! j))) =
             length (failed_heat_calls ex (snd (render_panel ex axs ls al g cb (idx + j) (ds ! j))))"
  shows "print_count (snd (render_loop ex axs ls al g cb idx ds)) =
         length (failed_heat_calls ex (snd (render_loop ex axs ls al g cb idx ds)))"
  using assms
proof (induction ds arbitrary: idx)
  case Nil
  show ?case by (simp add: failed_heat_calls_def)
next
  case (Cons d ds)
  from Cons.prems have d0: "print_count (snd (render_panel ex axs ls al g cb idx d)) =
             length (failed_heat_calls ex (snd (render_panel ex axs ls al g cb idx d)))" by force
  have a: "\<forall>j < length ds. print_count (snd (render_panel ex axs ls al g cb (Suc idx + j) (ds ! j))) =
             length (failed_heat_calls ex (snd (render_panel ex axs ls al g cb (Suc idx + j) (ds ! j))))"
  proof (intro allI impI)
    fix j assume "j < length ds"
    then have "Suc j < length (d # ds)" by simp
    from Cons.prems [rule_format, OF this] show
      "print_count (snd (render_panel ex axs ls al g cb (Suc idx + j) (ds ! j))) =
       length (failed_heat_calls ex (snd (render_panel ex axs ls al g cb (Suc idx + j) (ds ! j))))"
      by simp
  qed
  obtain r evs where rp: "render_panel ex axs ls al g cb idx d = (r, evs)"
    by (cases "render_panel ex axs ls al g cb idx d") auto
  obtain r2 evs2 where rl: "render_loop ex axs ls al g cb (Suc idx) ds = (r2, evs2)"
    by (cases "render_loop ex axs ls al g cb (Suc idx) ds") auto
  show ?case
    using d0 Cons.IH [OF a]
    by (cases r) (simp_all add: rp rl print_count_append failed_heat_calls_append)
qed

lemma render_loop_events_subset:
  assumes "\<forall>j < length ds. fst (render_panel ex axs ls al g cb (idx + j) (ds ! j)) = None"
    and "k < length ds"
  shows "set (snd (render_panel ex axs ls al g cb (idx + k) (ds ! k)))
           \<subseteq> set (snd (render_loop ex axs ls al g cb idx ds))"
  using assms
proof (induction ds arbitrary: idx k)
  case Nil
  then show ?case by simp
next
  case (Cons d ds)
  from Cons.prems(1) have h: "fst (render_panel ex axs ls al g cb idx d) = None" by force
  obtain evs where rp: "render_panel ex axs ls al g cb idx d = (None, evs)"
    using h by (cases "render_panel ex axs ls al g cb idx d") auto
  obtain r2 evs2 where rl: "render_loop ex axs ls al g cb (Suc idx) ds = (r2, evs2)"
    by (cases "render_loop ex axs ls al g cb (Suc idx) ds") auto
  have whole: "snd (render_loop ex axs ls al g cb idx (d # ds)) = evs @ evs2"
    by (simp add: rp rl)
  show ?case
  proof (cases k)
    case 0
    then show ?thesis using whole rp by simp
  next
    case (Suc k')
    have a: "\<forall>j < length ds. fst (render_panel ex axs ls al g cb (Suc idx + j) (ds ! j)) = None"
    proof (intro allI impI)
      fix j assume "j < length ds"
      then have "Suc j < length (d # ds)" by simp
      from Cons.prems(1) [rule_format, OF this] show
        "fst (render_panel ex axs ls al g cb (Suc idx + j) (ds ! j)) = None" by simp
    qed
    have k': "k' < length ds" using Cons.prems(2) Suc by simp
    from Cons.IH [OF a k'] have
      "set (snd (render_panel ex axs ls al g cb (Suc idx + k') (ds ! k'))) \<subseteq> set evs2"
      using rl by simp
    then show ?thesis using whole Suc by auto
  qed
qed

subsection \<open>The call as a whole\<close>

lemma generate_heatmap_fig_fields:
  "raised (generate_heatmap_fig ex dflt ps ls centers arg al cb) =
     fst (heatmap_fig_body ex ps ls centers (minmax_used dflt arg) al cb)"
  "trace (generate_heatmap_fig ex dflt ps ls centers arg al cb) =
     fst (snd (heatmap_fig_body ex ps ls centers (minmax_used dflt arg) al cb))"
  "minmax_out (generate_heatmap_fig ex dflt ps ls centers arg al cb) =
     snd (snd (heatmap_fig_body ex ps ls centers (minmax_used dflt arg) al cb))"
  "default_out (generate_heatmap_fig ex dflt ps ls centers arg al cb) =
     (case arg of None \<Rightarrow> snd (snd (heatmap_fig_body ex ps ls centers dflt al cb)) | Some mm0 \<Rightarrow> dflt)"
  by (auto simp: generate_heatmap_fig_def minmax_used_def split: option.splits prod.splits)

lemma init_state_minmax: "init_state mm = (init_state [])\<lparr>minmax := mm\<rparr>"
  by (simp add: init_state_def)

lemma body_layout_error:
  assumes "layout_loop ex (centers_or_default centers (length ps)) cb (mm0 = []) 0 ps (init_state mm0)
             = Inl (e, mm)"
  shows "heatmap_fig_body ex ps ls centers mm0 al cb = (Some e, [], mm)"
  using assms by (simp add: heatmap_fig_body_def init_state_def)

lemma body_layout_ok:
  assumes "layout_loop ex (centers_or_default centers (length ps)) cb (mm0 = []) 0 ps (init_state mm0)
             = Inr st"
  shows "heatmap_fig_body ex ps ls centers mm0 al cb =
     (case subplots (length ps) of
        Inl e \<Rightarrow> (Some e, [Subplots (length ps) (fig_width (ratios st)) (ratios st)], minmax st)
      | Inr axs \<Rightarrow>
          (case render_loop ex axs ls al (g_vmax st) cb 0
                  (zip (imgs st) (zip (minmax st) (centers_or_default centers (length ps)))) of
             (Some e, evs) \<Rightarrow>
               (Some e, Subplots (length ps) (fig_width (ratios st)) (ratios st) # evs, minmax st)
           | (None, evs) \<Rightarrow>
               (None, Subplots (length ps) (fig_width (ratios st)) (ratios st) # evs @ [TightLayout],
                minmax st)))"
proof -
  have len: "length (ratios st) = length ps"
    using layout_loop_lengths(1) [OF assms] by (simp add: init_state_def)
  show ?thesis
    using assms len by (simp add: heatmap_fig_body_def init_state_def Let_def)
qed

lemma body_heat_call:
  assumes "(i, a) \<in> set (heat_calls (fst (snd (heatmap_fig_body ex ps ls centers mm0 al cb))))"
  shows "\<exists>st. layout_loop ex (centers_or_default centers (length ps)) cb (mm0 = []) 0 ps (init_state mm0)
                = Inr st \<and>
              snd (snd (heatmap_fig_body ex ps ls centers mm0 al cb)) = minmax st \<and>
              i < length ps \<and> i < length (minmax st) \<and>
              i < length (centers_or_default centers (length ps)) \<and>
              img a = imgs st ! i \<and> center a = centers_or_default centers (length ps) ! i \<and>
              ndim (img a) = 2 \<and>
              (vmin a, vmax a, cmap a) = panel_scale al (g_vmax st) (minmax st ! i) (center a) \<and>
              heatmap_kwargs cb i = Inr (cbar a, cbar_kws a)"
proof (cases "layout_loop ex (centers_or_default centers (length ps)) cb (mm0 = []) 0 ps (init_state mm0)")
  case (Inl x)
  obtain e mm where "x = (e, mm)" by (cases x) auto
  with Inl assms show ?thesis by (simp add: body_layout_error)
next
  case (Inr st)
  let ?cs = "centers_or_default centers (length ps)"
  let ?ds = "zip (imgs st) (zip (minmax st) ?cs)"
  have leni: "length (imgs st) = length ps"
    using layout_loop_lengths(2) [OF Inr] by (simp add: init_state_def)
  note body = body_layout_ok [OF Inr, of ls al]
  have mm: "snd (snd (heatmap_fig_body ex ps ls centers mm0 al cb)) = minmax st"
    unfolding body by (simp split: sum.splits prod.splits option.splits)
  obtain axs where axs: "subplots (length ps) = Inr axs"
    using assms unfolding body by (cases "subplots (length ps)") auto
  have "(i, a) \<in> set (heat_calls (snd (render_loop ex axs ls al (g_vmax st) cb 0 ?ds)))"
    using assms unfolding body axs
    by (auto simp: heat_calls_append split: prod.splits option.splits)
  from render_loop_heat_call [OF this] obtain j where
    j: "j < length ?ds" "i = j"
       "(i, a) \<in> set (heat_calls (snd (render_panel ex axs ls al (g_vmax st) cb j (?ds ! j))))"
    by auto
  have dj: "?ds ! j = (imgs st ! j, minmax st ! j, ?cs ! j)" using j(1) by simp
  note rp = render_panel_heat_call [OF j(3) [unfolded dj]]
  have "i < length ps" "i < length (minmax st)" "i < length ?cs"
    using j(1,2) leni by simp_all
  then show ?thesis using Inr mm rp j(2) by auto
qed

lemma heat_call_panel:
  assumes "(i, a) \<in> set (heat_calls (trace (generate_heatmap_fig ex dflt ps ls centers arg al cb)))"
  obtains st r0 v1 v2 h h' where
    "layout_loop ex (centers_or_default centers (length ps)) cb (minmax_used dflt arg = []) 0 ps
       (init_state (minmax_used dflt arg)) = Inr st"
    and "minmax_out (generate_heatmap_fig ex dflt ps ls centers arg al cb) = minmax st"
    and "i < length ps" and "i < length (minmax st)"
    and "i < length (centers_or_default centers (length ps))"
    and "is_scalar (ps ! i)" and "img a = squeeze (ps ! i)"
    and "scan_panel ex (centers_or_default centers (length ps)) cb i (ps ! i) h
           = Inr (r0, img a, v1, v2, h')"
    and "minmax_used dflt arg = [] \<Longrightarrow> minmax st ! i = (v1, v2)"
    and "center a = centers_or_default centers (length ps) ! i"
    and "(vmin a, vmax a, cmap a) = panel_scale al (g_vmax st) (minmax st ! i) (center a)"
    and "heatmap_kwargs cb i = Inr (cbar a, cbar_kws a)"
proof -
  let ?mm0 = "minmax_used dflt arg"
  let ?cs = "centers_or_default centers (length ps)"
  from assms have "(i, a) \<in> set (heat_calls (fst (snd (heatmap_fig_body ex ps ls centers ?mm0 al cb))))"
    by (simp add: generate_heatmap_fig_fields)
  from body_heat_call [OF this] obtain st where
    st: "layout_loop ex ?cs cb (?mm0 = []) 0 ps (init_state ?mm0) = Inr st" and
    mm: "snd (snd (heatmap_fig_body ex ps ls centers ?mm0 al cb)) = minmax st" and
    b: "i < length ps" "i < length (minmax st)" "i < length ?cs"
       "img a = imgs st ! i" "center a = ?cs ! i" "ndim (img a) = 2"
       "(vmin a, vmax a, cmap a) = panel_scale al (g_vmax st) (minmax st ! i) (center a)"
       "heatmap_kwargs cb i = Inr (cbar a, cbar_kws a)"
    by blast
  from layout_loop_nth [OF st b(1)] obtain r0 im v1 v2 h h' where
    sc: "scan_panel ex ?cs cb i (ps ! i) h = Inr (r0, im, v1, v2, h')" and
    im: "imgs st ! i = im" and
    en: "?mm0 = [] \<longrightarrow> minmax st ! i = (v1, v2)"
    by (auto simp: init_state_def)
  have sca: "is_scalar (ps ! i)" using scan_panel_ndim [OF sc] im b(4,6) by simp
  have sq: "img a = squeeze (ps ! i)" using scan_panel_scalar(1) [OF sc sca] im b(4) by simp
  have sc': "scan_panel ex ?cs cb i (ps ! i) h = Inr (r0, img a, v1, v2, h')"
    using sc im b(4) by simp
  have mo: "minmax_out (generate_heatmap_fig ex dflt ps ls centers arg al cb) = minmax st"
    using mm by (simp add: generate_heatmap_fig_fields)
  show thesis
    using that [OF st mo b(1,2,3) sca sq sc' _ b(5,7,8)] en by blast
qed

lemma body_subplot_ratios:
  assumes "subplot_ratios (fst (snd (heatmap_fig_body ex ps ls centers mm0 al cb))) = Some rs"
  shows "\<exists>st. layout_loop ex (centers_or_default centers (length ps)) cb (mm0 = []) 0 ps
                 (init_state mm0) = Inr st \<and> rs = ratios st"
proof (cases "layout_loop ex (centers_or_default centers (length ps)) cb (mm0 = []) 0 ps (init_state mm0)")
  case (Inl x)
  obtain e m where "x = (e, m)" by (cases x) auto
  with Inl assms show ?thesis by (simp add: body_layout_error)
next
  case (Inr st)
  have "subplot_ratios (fst (snd (heatmap_fig_body ex ps ls centers mm0 al cb))) = Some (ratios st)"
    unfolding body_layout_ok [OF Inr] by (simp split: sum.splits prod.splits option.splits)
  with assms Inr show ?thesis by simp
qed


lemma body_round_trip:
  assumes "heatmap_fig_body ex ps ls centers [] al cb = (r, evs, mm)"
  shows "heatmap_fig_body ex ps ls centers mm al cb = (r, evs, mm)"
proof (cases "mm = []")
  case True
  with assms show ?thesis by simp
next
  case False
  let ?cs = "centers_or_default centers (length ps)"
  show ?thesis
  proof (cases "layout_loop ex ?cs cb True 0 ps (init_state [])")
    case (Inl x)
    obtain e m where x: "x = (e, m)" by (cases x) auto
    have first: "heatmap_fig_body ex ps ls centers [] al cb = (Some e, [], m)"
      using Inl x by (intro body_layout_error) simp
    with assms have eq: "r = Some e" "evs = []" "mm = m" by simp_all
    have "layout_loop ex ?cs cb False 0 ps (init_state mm) = Inl (e, mm)"
      using layout_loop_calc_irrelevant [where st = "init_state []" and M = mm and idx = 0 and ts = ps
          and ex = ex and centers = ?cs and colorbars = cb] Inl x
      by (simp add: init_state_minmax [symmetric])
    then have "heatmap_fig_body ex ps ls centers mm al cb = (Some e, [], mm)"
      using False by (intro body_layout_error) simp
    with eq show ?thesis by simp
  next
    case (Inr st)
    have l0: "layout_loop ex ?cs cb ([] = ([] :: (fl \<times> fl) list)) 0 ps (init_state []) = Inr st"
      using Inr by simp
    note first = body_layout_ok [OF l0, of ls al]
    have mm: "mm = minmax st"
      using assms unfolding first by (auto split: sum.splits prod.splits option.splits)
    have "layout_loop ex ?cs cb False 0 ps (init_state mm) = Inr (st\<lparr>minmax := mm\<rparr>)"
      using layout_loop_calc_irrelevant [where st = "init_state []" and M = mm and idx = 0 and ts = ps
          and ex = ex and centers = ?cs and colorbars = cb] Inr
      by (simp add: init_state_minmax [symmetric])
    then have l1: "layout_loop ex ?cs cb (mm = []) 0 ps (init_state mm) = Inr st"
      using False mm by simp
    note second = body_layout_ok [OF l1, of ls al]
    show ?thesis using assms unfolding second first .
  qed
qed

lemma draws_ok_nth:
  "draws_ok ex labels ts \<Longrightarrow> j < length ts \<Longrightarrow> draw_ok ex labels j (ts ! j)"
  by (auto simp: draws_ok_def list_all_length nth_enumerate_eq)

lemma draw_ok_heatmap_update:
  "draw_ok (ex\<lparr>heatmap_raises := f\<rparr>) ls i t = draw_ok ex ls i t"
  by (simp add: draw_ok_def color_image_def split: option.splits)

lemma draws_ok_heatmap_update:
  "draws_ok (ex\<lparr>heatmap_raises := f\<rparr>) ls ts = draws_ok ex ls ts"
  by (simp add: draws_ok_def draw_ok_heatmap_update)

lemma panels_ok_heatmap_update:
  "panels_ok (ex\<lparr>heatmap_raises := f\<rparr>) centers cb idx ts = panels_ok ex centers cb idx ts"
  by (simp add: panels_ok_def panel_ok_def)

lemma render_ready:
  assumes st: "layout_loop ex cs cb calc 0 ps (init_state mm0) = Inr st"
    and dr: "draws_ok ex ls ps"
    and j: "j < length (zip (imgs st) (zip (minmax st) cs))"
  shows "fst (render_panel ex (AxesArray (length ps)) ls al g cb j
               (zip (imgs st) (zip (minmax st) cs) ! j)) = None"
    and "zip (imgs st) (zip (minmax st) cs) ! j = (imgs st ! j, minmax st ! j, cs ! j)"
    and "ndim (imgs st ! j) = 2 \<longleftrightarrow> is_scalar (ps ! j)"
    and "ndim (imgs st ! j) = 2 \<Longrightarrow> cb = None \<or> (\<exists>bs. cb = Some bs \<and> j < length bs)"
    and "\<not> is_scalar (ps ! j) \<Longrightarrow> color_image ex (ps ! j) = Some (imgs st ! j)"
proof -
  have leni: "length (imgs st) = length ps"
    using layout_loop_lengths(2) [OF st] by (simp add: init_state_def)
  from j leni have jp: "j < length ps" by simp
  show dj: "zip (imgs st) (zip (minmax st) cs) ! j = (imgs st ! j, minmax st ! j, cs ! j)"
    using j by simp
  from layout_loop_nth [OF st jp] obtain r v1 v2 h h' where
    sc: "scan_panel ex cs cb j (ps ! j) h = Inr (r, imgs st ! j, v1, v2, h')"
    by (auto simp: init_state_def)
  show nd: "ndim (imgs st ! j) = 2 \<longleftrightarrow> is_scalar (ps ! j)"
    by (rule scan_panel_ndim [OF sc])
  show "cb = None \<or> (\<exists>bs. cb = Some bs \<and> j < length bs)" if "ndim (imgs st ! j) = 2"
    using scan_panel_scalar(3) [OF sc] nd that by simp
  show ci: "color_image ex (ps ! j) = Some (imgs st ! j)" if ns: "\<not> is_scalar (ps ! j)"
  proof -
    from scan_panel_not_scalar(7) [OF sc ns] obtain es where
      "inv_trans ex (squeeze (ps ! j)) = Some es"
      "imgs st ! j = moveaxis_0_2 ((squeeze (ps ! j))\<lparr>elems := es\<rparr>)"
      by blast
    then show ?thesis by (simp add: color_image_def)
  qed
  from draws_ok_nth [OF dr jp] have dro: "draw_ok ex ls j (ps ! j)" .
  have ax: "axs_index (AxesArray (length ps)) j = Inr j" using jp by (simp add: axs_index_def)
  have lab: "j < length ls" using dro by (simp add: draw_ok_def)
  have shows_ok: "ndim (imgs st ! j) = 2 \<or> \<not> imshow_raises ex (imgs st ! j)"
  proof (cases "is_scalar (ps ! j)")
    case True
    then show ?thesis using nd by simp
  next
    case False
    with dro ci [OF False] show ?thesis by (simp add: draw_ok_def)
  qed
  show "fst (render_panel ex (AxesArray (length ps)) ls al g cb j
               (zip (imgs st) (zip (minmax st) cs) ! j)) = None"
    unfolding dj using ax lab shows_ok by (simp add: render_panel_returns_iff)
qed

text \<open>
  A call on two panels or more, whose panels all pass the first loop and can be drawn,
  returns; its trace is the \<open>plt.subplots\<close> call, the events of the panels in order
  and \<open>tight_layout\<close>.
\<close>

lemma body_returns:
  assumes ok: "panels_ok ex (centers_or_default centers (length ps)) cb 0 ps"
    and n2: "2 \<le> length ps"
    and dr: "draws_ok ex ls ps"
  shows "\<exists>st evs. layout_loop ex (centers_or_default centers (length ps)) cb (mm0 = []) 0 ps
                  (init_state mm0) = Inr st \<and>
          render_loop ex (AxesArray (length ps)) ls al (g_vmax st) cb 0
            (zip (imgs st) (zip (minmax st) (centers_or_default centers (length ps)))) = (None, evs) \<and>
          heatmap_fig_body ex ps ls centers mm0 al cb =
            (None, Subplots (length ps) (fig_width (ratios st)) (ratios st) # evs @ [TightLayout],
             minmax st) \<and>
          drawn_axes evs = [0 ..< min (length ps) (min (length (minmax st))
                 (length (centers_or_default centers (length ps))))] \<and>
          print_count evs = length (failed_heat_calls ex evs)"
proof -
  let ?cs = "centers_or_default centers (length ps)"
  from ok obtain st where
    st: "layout_loop ex ?cs cb (mm0 = []) 0 ps (init_state mm0) = Inr st"
    using layout_loop_ok_iff [of ex ?cs cb "mm0 = []" 0 ps "init_state mm0"] by blast
  let ?ds = "zip (imgs st) (zip (minmax st) ?cs)"
  let ?axs = "AxesArray (length ps)"
  let ?g = "g_vmax st"
  have leni: "length (imgs st) = length ps"
    using layout_loop_lengths(2) [OF st] by (simp add: init_state_def)
  have lends: "length ?ds = min (length ps) (min (length (minmax st)) (length ?cs))"
    using leni by simp
  have sp: "subplots (length ps) = Inr ?axs" using n2 by (auto simp: subplots_def)
  have panel: "fst (render_panel ex ?axs ls al ?g cb (0 + j) (?ds ! j)) = None \<and>
               drawn_axes (snd (render_panel ex ?axs ls al ?g cb (0 + j) (?ds ! j))) = [0 + j] \<and>
               print_count (snd (render_panel ex ?axs ls al ?g cb (0 + j) (?ds ! j))) =
                 length (failed_heat_calls ex (snd (render_panel ex ?axs ls al ?g cb (0 + j) (?ds ! j))))"
    if j: "j < length ?ds" for j
  proof -
    note rr1 = render_ready(1) [OF st dr j, of al ?g]
    note rr = render_ready(2-5) [OF st dr j]
    have r1: "fst (render_panel ex ?axs ls al ?g cb j (imgs st ! j, minmax st ! j, ?cs ! j)) = None"
      using rr1 unfolding rr(1) .
    have r2: "drawn_axes (snd (render_panel ex ?axs ls al ?g cb j (imgs st ! j, minmax st ! j, ?cs ! j))) = [j]"
      using render_panel_drawn [OF r1] rr(3) by blast
    have r3: "print_count (snd (render_panel ex ?axs ls al ?g cb j (imgs st ! j, minmax st ! j, ?cs ! j))) =
       length (failed_heat_calls ex (snd (render_panel ex ?axs ls al ?g cb j (imgs st ! j, minmax st ! j, ?cs ! j))))"
      using render_panel_prints rr(3) by blast
    show ?thesis using r1 r2 r3 rr(1) by simp
  qed
  have fstNone: "fst (render_loop ex ?axs ls al ?g cb 0 ?ds) = None"
    using render_loop_returns [of ?ds ex ?axs ls al ?g cb 0] panel by blast
  have drawn: "drawn_axes (snd (render_loop ex ?axs ls al ?g cb 0 ?ds)) = [0 ..< 0 + length ?ds]"
    using render_loop_drawn [of ?ds ex ?axs ls al ?g cb 0] panel by blast
  have prints: "print_count (snd (render_loop ex ?axs ls al ?g cb 0 ?ds)) =
         length (failed_heat_calls ex (snd (render_loop ex ?axs ls al ?g cb 0 ?ds)))"
    using render_loop_prints [of ?ds ex ?axs ls al ?g cb 0] panel by blast
  obtain evs where rl: "render_loop ex ?axs ls al ?g cb 0 ?ds = (None, evs)"
    using fstNone by (cases "render_loop ex ?axs ls al ?g cb 0 ?ds") auto
  have "heatmap_fig_body ex ps ls centers mm0 al cb =
          (None, Subplots (length ps) (fig_width (ratios st)) (ratios st) # evs @ [TightLayout], minmax st)"
    unfolding body_layout_ok [OF st] by (simp add: sp rl)
  moreover have "drawn_axes evs = [0 ..< min (length ps) (min (length (minmax st)) (length ?cs))]"
    using drawn rl lends by simp
  moreover have "print_count evs = length (failed_heat_calls ex evs)"
    using prints rl by simp
  ultimately show ?thesis using st rl by blast
qed

text \<open>
  In a call that gets through, every panel the zip reaches gets its draw call:
  \<open>sns.heatmap\<close> for a scalar panel, \<open>imshow\<close> on its raster for a color panel.
\<close>

lemma body_panel_drawn:
  assumes ok: "panels_ok ex (centers_or_default centers (length ps)) cb 0 ps"
    and n2: "2 \<le> length ps"
    and dr: "draws_ok ex ls ps"
    and i: "i < length ps" "i < length (snd (snd (heatmap_fig_body ex ps ls centers mm0 al cb)))"
           "i < length (centers_or_default centers (length ps))"
  shows "is_scalar (ps ! i) \<Longrightarrow>
           \<exists>a. (i, a) \<in> set (heat_calls (fst (snd (heatmap_fig_body ex ps ls centers mm0 al cb))))"
    and "\<not> is_scalar (ps ! i) \<Longrightarrow>
           \<exists>im. color_image ex (ps ! i) = Some im \<and>
             (i, im) \<in> set (imshow_calls (fst (snd (heatmap_fig_body ex ps ls centers mm0 al cb))))"
proof -
  let ?cs = "centers_or_default centers (length ps)"
  from body_returns [OF ok n2 dr, of mm0 al] obtain st evs where
    st: "layout_loop ex ?cs cb (mm0 = []) 0 ps (init_state mm0) = Inr st" and
    rl: "render_loop ex (AxesArray (length ps)) ls al (g_vmax st) cb 0
           (zip (imgs st) (zip (minmax st) ?cs)) = (None, evs)" and
    body: "heatmap_fig_body ex ps ls centers mm0 al cb =
            (None, Subplots (length ps) (fig_width (ratios st)) (ratios st) # evs @ [TightLayout],
             minmax st)"
    by blast
  let ?ds = "zip (imgs st) (zip (minmax st) ?cs)"
  let ?axs = "AxesArray (length ps)"
  have leni: "length (imgs st) = length ps"
    using layout_loop_lengths(2) [OF st] by (simp add: init_state_def)
  have ids: "i < length ?ds" using i leni body by simp
  have allNone: "\<forall>j < length ?ds. fst (render_panel ex ?axs ls al (g_vmax st) cb (0 + j) (?ds ! j)) = None"
    using render_ready(1) [OF st dr, of _ al "g_vmax st"] by simp
  note rr1 = render_ready(1) [OF st dr ids, of al "g_vmax st"]
  note rr = render_ready(2-5) [OF st dr ids]
  have sub: "set (snd (render_panel ex ?axs ls al (g_vmax st) cb i (imgs st ! i, minmax st ! i, ?cs ! i)))
               \<subseteq> set evs"
    using render_loop_events_subset [OF allNone ids] rl rr(1) by simp
  have r1: "fst (render_panel ex ?axs ls al (g_vmax st) cb i (imgs st ! i, minmax st ! i, ?cs ! i)) = None"
    using rr1 unfolding rr(1) .
  show "\<exists>a. (i, a) \<in> set (heat_calls (fst (snd (heatmap_fig_body ex ps ls centers mm0 al cb))))"
    if sca: "is_scalar (ps ! i)"
  proof -
    have nd: "ndim (imgs st ! i) = 2" using rr(2) sca by simp
    from render_panel_heat_call_made [OF r1 nd rr(3) [OF nd]] obtain a where
      "Heatmap i a \<in> set (snd (render_panel ex ?axs ls al (g_vmax st) cb i (imgs st ! i, minmax st ! i, ?cs ! i)))"
      by blast
    with sub have "Heatmap i a \<in> set evs" by blast
    then show ?thesis unfolding body by (auto simp: heat_calls_mem)
  qed
  show "\<exists>im. color_image ex (ps ! i) = Some im \<and>
             (i, im) \<in> set (imshow_calls (fst (snd (heatmap_fig_body ex ps ls centers mm0 al cb))))"
    if ns: "\<not> is_scalar (ps ! i)"
  proof -
    have nd: "ndim (imgs st ! i) \<noteq> 2" using rr(2) ns by simp
    from render_panel_imshow_made [OF r1 nd] sub have "Imshow i (imgs st ! i) \<in> set evs" by blast
    then have "(i, imgs st ! i) \<in> set (imshow_calls (fst (snd (heatmap_fig_body ex ps ls centers mm0 al cb))))"
      unfolding body by (auto simp: imshow_calls_mem)
    with rr(4) [OF ns] show ?thesis by blast
  qed
qed

text \<open>
  The same for the call: which panels get a heatmap call. The claims below say what the
  arguments of such a call are.
\<close>

lemma scalar_panel_is_drawn:
  assumes "2 \<le> length ps"
    and "panels_ok ex (centers_or_default centers (length ps)) cb 0 ps"
    and "draws_ok ex ls ps"
    and "i < length ps"
    and "i < length (minmax_out (generate_heatmap_fig ex dflt ps ls centers arg al cb))"
    and "i < length (centers_or_default centers (length ps))"
    and "is_scalar (ps ! i)"
  shows "\<exists>a. (i, a) \<in> set (heat_calls (trace
           (generate_heatmap_fig ex dflt ps ls centers arg al cb)))"
proof -
  have i2: "i < length (snd (snd (heatmap_fig_body ex ps ls centers (minmax_used dflt arg) al cb)))"
    using assms(5) by (simp add: generate_heatmap_fig_fields)
  from body_panel_drawn(1) [OF assms(2,1,3,4) i2 assms(6,7)]
  show ?thesis by (simp add: generate_heatmap_fig_fields)
qed

text \<open>What a call that gets through leaves behind.\<close>

lemma call_returns:
  assumes "2 \<le> length ps"
    and "panels_ok ex (centers_or_default centers (length ps)) cb 0 ps"
    and "draws_ok ex ls ps"
  shows "raised (generate_heatmap_fig ex dflt ps ls centers arg al cb) = None"
    and "drawn_axes (trace (generate_heatmap_fig ex dflt ps ls centers arg al cb)) =
           [0 ..< min (length ps)
                   (min (length (minmax_out (generate_heatmap_fig ex dflt ps ls centers arg al cb)))
                        (length (centers_or_default centers (length ps))))]"
    and "print_count (trace (generate_heatmap_fig ex dflt ps ls centers arg al cb)) =
           length (failed_heat_calls ex (trace (generate_heatmap_fig ex dflt ps ls centers arg al cb)))"
    and "minmax_used dflt arg \<noteq> [] \<Longrightarrow>
           minmax_out (generate_heatmap_fig ex dflt ps ls centers arg al cb) = minmax_used dflt arg"
proof -
  let ?cs = "centers_or_default centers (length ps)"
  let ?mm0 = "minmax_used dflt arg"
  from body_returns [OF assms(2,1,3), of ?mm0 al] obtain st evs where
    st: "layout_loop ex ?cs cb (?mm0 = []) 0 ps (init_state ?mm0) = Inr st" and
    body: "heatmap_fig_body ex ps ls centers ?mm0 al cb =
            (None, Subplots (length ps) (fig_width (ratios st)) (ratios st) # evs @ [TightLayout],
             minmax st)" and
    dr: "drawn_axes evs = [0 ..< min (length ps) (min (length (minmax st)) (length ?cs))]" and
    pr: "print_count evs = length (failed_heat_calls ex evs)"
    by blast
  show "raised (generate_heatmap_fig ex dflt ps ls centers arg al cb) = None"
    using body by (simp add: generate_heatmap_fig_fields)
  show "drawn_axes (trace (generate_heatmap_fig ex dflt ps ls centers arg al cb)) =
           [0 ..< min (length ps)
                   (min (length (minmax_out (generate_heatmap_fig ex dflt ps ls centers arg al cb)))
                        (length ?cs))]"
    using body dr by (simp add: generate_heatmap_fig_fields drawn_axes_append)
  show "print_count (trace (generate_heatmap_fig ex dflt ps ls centers arg al cb)) =
           length (failed_heat_calls ex (trace (generate_heatmap_fig ex dflt ps ls centers arg al cb)))"
    using body pr
    by (simp add: generate_heatmap_fig_fields print_count_append failed_heat_calls_def heat_calls_append)
  show "minmax_out (generate_heatmap_fig ex dflt ps ls centers arg al cb) = ?mm0" if "?mm0 \<noteq> []"
    using body layout_loop_lengths(4) [OF st] that
    by (simp add: generate_heatmap_fig_fields init_state_def)
qed

subsection \<open>Colour scale of the scalar panels\<close>

text \<open>
  C1, as the code has it: take a scalar panel with no center that is drawn with
  \<open>align_scales\<close> on, or with \<open>align_scales\<close> off from ranges the same call has computed
  (its \<open>minmax\<close> list was empty when the call started). With \<open>align_scales\<close> off its
  \<open>vmin\<close> and \<open>vmax\<close> are the minimum and the maximum of its data, clipped to
  non-negative; with \<open>align_scales\<close> on its \<open>vmin\<close> is 0. When the data that goes into
  them holds no NaN, \<open>vmin\<close> and \<open>vmax\<close> are non-negative, every data value of the panel
  is at most \<open>vmax\<close>, and \<open>vmin\<close> is at most every non-negative data value. (A negative
  value lies below \<open>vmin\<close>.)
\<close>

theorem scale_covers_nonnegative_data:
  assumes "(i, a) \<in> set (heat_calls (trace
             (generate_heatmap_fig ex dflt ps ls centers arg al cb)))"
    and "al \<or> minmax_used dflt arg = []"
    and "centers_or_default centers (length ps) ! i = None"
  shows "is_scalar (ps ! i) \<and> img a = squeeze (ps ! i) \<and>
         (\<exists>lo hi. np_min (np_append (elems (ps ! i)) PInf) = Inr lo \<and>
            np_max (np_append (elems (ps ! i)) NInf) = Inr hi \<and>
            (if al then vmin a = Some (Fin 0) \<and> vmax a \<noteq> None
             else vmin a = Some (np_clip_0 lo) \<and> vmax a = Some (np_clip_0 hi))) \<and>
         ((if al
           then NaN \<notin> set (noncentered_values (centers_or_default centers (length ps)) 0 ps)
           else NaN \<notin> set (elems (ps ! i))) \<longrightarrow>
          (\<exists>vlo vhi. vmin a = Some vlo \<and> vmax a = Some vhi \<and>
             fl_le (Fin 0) vlo \<and> fl_le (Fin 0) vhi \<and>
             (\<forall>d \<in> set (elems (ps ! i)).
                fl_le d vhi \<and> (fl_le (Fin 0) d \<longrightarrow> fl_le vlo d))))"
proof -
  let ?cs = "centers_or_default centers (length ps)"
  let ?mm0 = "minmax_used dflt arg"
  let ?vals = "noncentered_values ?cs 0 ps"
  let ?es = "elems (ps ! i)"
  from assms(1) obtain st :: lstate and r0 v1 v2 h h' where
    stl: "layout_loop ex ?cs cb (?mm0 = []) 0 ps (init_state ?mm0) = Inr st" and
    ip: "i < length ps" and ic: "i < length ?cs" and
    sca: "is_scalar (ps ! i)" and im: "img a = squeeze (ps ! i)" and
    scn: "scan_panel ex ?cs cb i (ps ! i) h = Inr (r0, img a, v1, v2, h')" and
    en: "?mm0 = [] \<Longrightarrow> minmax st ! i = (v1, v2)" and
    ce: "center a = ?cs ! i" and
    sc: "(vmin a, vmax a, cmap a) = panel_scale al (g_vmax st) (minmax st ! i) (center a)"
    by (rule heat_call_panel) blast
  have c: "center a = None" using ce assms(3) by simp
  from scan_panel_scalar(6) [OF scn sca assms(3)] have
    m1: "np_min (np_append ?es PInf) = Inr v1" and
    m2: "np_max (np_append ?es NInf) = Inr v2"
    by (simp_all add: elems_squeeze)
  show ?thesis
  proof (cases al)
    case True
    have lo: "vmin a = Some (Fin 0)" and hi: "vmax a = Some (g_vmax st)"
      using sc c True by (simp_all add: panel_scale_aligned)
    have first: "\<exists>lo hi. np_min (np_append ?es PInf) = Inr lo \<and>
            np_max (np_append ?es NInf) = Inr hi \<and>
            (if al then vmin a = Some (Fin 0) \<and> vmax a \<noteq> None
             else vmin a = Some (np_clip_0 lo) \<and> vmax a = Some (np_clip_0 hi))"
      unfolding if_P [OF True] using m1 m2 lo hi by simp
    have second: "\<exists>vlo vhi. vmin a = Some vlo \<and> vmax a = Some vhi \<and>
             fl_le (Fin 0) vlo \<and> fl_le (Fin 0) vhi \<and>
             (\<forall>d \<in> set ?es. fl_le d vhi \<and> (fl_le (Fin 0) d \<longrightarrow> fl_le vlo d))"
      if nn: "NaN \<notin> set ?vals"
    proof -
      have g0: "g_vmax (init_state ?mm0) \<noteq> NaN" by (simp add: init_state_def)
      from layout_loop_g_vmax [OF stl nn g0] have
        g: "fl_le (Fin 0) (g_vmax st)" "\<forall>d \<in> set ?vals. fl_le d (g_vmax st)"
        by (simp_all add: init_state_def)
      have sub: "set ?es \<subseteq> set ?vals"
        using noncentered_values_nth [of i ps 0 ?cs] ip sca ic assms(3) by simp
      have b: "\<forall>d \<in> set ?es. fl_le d (g_vmax st) \<and> (fl_le (Fin 0) d \<longrightarrow> fl_le (Fin 0) d)"
        using g(2) sub by blast
      have z: "fl_le (Fin 0) (Fin 0)" by (simp add: fl_le_refl)
      from lo hi z g(1) b show ?thesis by blast
    qed
    show ?thesis
      unfolding if_P [OF True] using sca im first [unfolded if_P [OF True]] second by blast
  next
    case False
    with assms(2) have empty: "?mm0 = []" by simp
    have mm: "minmax st ! i = (v1, v2)" using en empty by simp
    have lo: "vmin a = Some (np_clip_0 v1)" and hi: "vmax a = Some (np_clip_0 v2)"
      using sc mm c False by (simp_all add: panel_scale_clipped)
    have first: "\<exists>lo hi. np_min (np_append ?es PInf) = Inr lo \<and>
            np_max (np_append ?es NInf) = Inr hi \<and>
            vmin a = Some (np_clip_0 lo) \<and> vmax a = Some (np_clip_0 hi)"
      using m1 m2 lo hi by blast
    have second: "\<exists>vlo vhi. vmin a = Some vlo \<and> vmax a = Some vhi \<and>
             fl_le (Fin 0) vlo \<and> fl_le (Fin 0) vhi \<and>
             (\<forall>d \<in> set ?es. fl_le d vhi \<and> (fl_le (Fin 0) d \<longrightarrow> fl_le vlo d))"
      if nn: "NaN \<notin> set ?es"
    proof -
      have nn1: "NaN \<notin> set (np_append ?es PInf)" and nn2: "NaN \<notin> set (np_append ?es NInf)"
        using nn by (simp_all add: np_append_def)
      from np_min_least [OF m1 nn1] have
        v1in: "v1 \<in> set (np_append ?es PInf)" and v1lo: "\<forall>d \<in> set ?es. fl_le v1 d"
        by (auto simp: np_append_def)
      from np_max_greatest [OF m2 nn2] have
        v2in: "v2 \<in> set (np_append ?es NInf)" and v2hi: "\<forall>d \<in> set ?es. fl_le d v2"
        by (auto simp: np_append_def)
      have v1n: "v1 \<noteq> NaN" using v1in nn1 by auto
      have v2n: "v2 \<noteq> NaN" using v2in nn2 by auto
      have b: "fl_le d (np_clip_0 v2) \<and> (fl_le (Fin 0) d \<longrightarrow> fl_le (np_clip_0 v1) d)"
        if d: "d \<in> set ?es" for d
      proof
        from v2hi d have "fl_le d v2" by blast
        moreover have "fl_le v2 (np_clip_0 v2)" using np_clip_0_ge [OF v2n] by simp
        ultimately show "fl_le d (np_clip_0 v2)" by (rule fl_le_trans)
        show "fl_le (Fin 0) d \<longrightarrow> fl_le (np_clip_0 v1) d"
          using v1lo d np_clip_0_le by blast
      qed
      have "fl_le (Fin 0) (np_clip_0 v1)" "fl_le (Fin 0) (np_clip_0 v2)"
        using np_clip_0_ge [OF v1n] np_clip_0_ge [OF v2n] by simp_all
      with lo hi b show ?thesis by blast
    qed
    show ?thesis
      unfolding if_not_P [OF False] using sca im first second by blast
  qed
qed

theorem scale_covers_nonnegative_data_witness:
  "(0, \<lparr>img = \<lparr>shape = [2, 2], elems = [Fin (- 1), Fin 0, Fin 1, Fin 5]\<rparr>,
        center = None, cmap = Viridis, vmin = Some (Fin 0), vmax = Some (Fin 5),
        cbar = None, cbar_kws = None\<rparr>)
     \<in> set (heat_calls (trace (generate_heatmap_fig quiet_ext [] [mixed_panel, pos_panel]
              [''a'', ''b''] None (Some []) False None))) \<and>
   (False \<or> minmax_used [] (Some []) = []) \<and>
   centers_or_default None (length [mixed_panel, pos_panel]) ! 0 = None \<and>
   NaN \<notin> set (elems ([mixed_panel, pos_panel] ! 0)) \<and>
   is_scalar ([mixed_panel, pos_panel] ! 0) \<and>
   fl_le (Fin 1) (Fin 5) \<and> fl_le (Fin 0) (Fin 1) \<and> \<not> fl_le (Fin 0) (Fin (- 1)) \<and>
   (1, \<lparr>img = \<lparr>shape = [2, 2], elems = [Fin (- 1), Fin 0, Fin 1, Fin 5]\<rparr>,
        center = None, cmap = Viridis, vmin = Some (Fin 0), vmax = Some (Fin 5),
        cbar = None, cbar_kws = None\<rparr>)
     \<in> set (heat_calls (trace (generate_heatmap_fig quiet_ext [(Fin 1, Fin 4), (Fin 1, Fin 4)]
              [pos_panel, mixed_panel] [''a'', ''b''] None None True None))) \<and>
   (True \<or> minmax_used [(Fin 1, Fin 4), (Fin 1, Fin 4)] None = []) \<and>
   centers_or_default None (length [pos_panel, mixed_panel]) ! 1 = None \<and>
   NaN \<notin> set (noncentered_values (centers_or_default None (length [pos_panel, mixed_panel])) 0
                 [pos_panel, mixed_panel]) \<and>
   is_scalar ([pos_panel, mixed_panel] ! 1)"
proof -
  let ?a = "\<lparr>img = \<lparr>shape = [2, 2], elems = [Fin (- 1), Fin 0, Fin 1, Fin 5]\<rparr>,
        center = None, cmap = Viridis, vmin = Some (Fin 0), vmax = Some (Fin 5),
        cbar = None, cbar_kws = None\<rparr>"
  have h1: "(0, ?a) \<in> set (heat_calls (trace (generate_heatmap_fig quiet_ext [] [mixed_panel, pos_panel]
              [''a'', ''b''] None (Some []) False None)))"
    by code_simp
  have h2: "False \<or> minmax_used [] (Some []) = []" by (simp add: minmax_used_def)
  have h3: "centers_or_default None (length [mixed_panel, pos_panel]) ! 0 = None"
    by (simp add: centers_or_default_def)
  have h4: "NaN \<notin> set (elems ([mixed_panel, pos_panel] ! 0))"
    by (simp add: mixed_panel_def)
  from scale_covers_nonnegative_data [OF h1 h2 h3]
  have c: "is_scalar ([mixed_panel, pos_panel] ! 0)" by blast
  have e: "fl_le (Fin 1) (Fin 5)" "fl_le (Fin 0) (Fin 1)" "\<not> fl_le (Fin 0) (Fin (- 1))"
    by (simp_all add: fl_le_def)
  have k1: "(1, ?a) \<in> set (heat_calls (trace (generate_heatmap_fig quiet_ext
              [(Fin 1, Fin 4), (Fin 1, Fin 4)]
              [pos_panel, mixed_panel] [''a'', ''b''] None None True None)))"
    by code_simp
  have k2: "True \<or> minmax_used [(Fin 1, Fin 4), (Fin 1, Fin 4)] None = []" by simp
  have k3: "centers_or_default None (length [pos_panel, mixed_panel]) ! 1 = None"
    by (simp add: centers_or_default_def)
  have k4: "NaN \<notin> set (noncentered_values (centers_or_default None (length [pos_panel, mixed_panel])) 0
                 [pos_panel, mixed_panel])"
    by code_simp
  from scale_covers_nonnegative_data [OF k1 k2 k3]
  have d: "is_scalar ([pos_panel, mixed_panel] ! 1)" by blast
  from h1 h2 h3 h4 c e k1 k2 k3 k4 d show ?thesis by blast
qed

text \<open>
  C1 as stated fails on an all-negative panel: its values \<open>-1, -2, -3, -4\<close> are drawn
  with \<open>vmin = vmax = 0\<close>, and \<open>0 \<le> -1\<close> is false.
\<close>

theorem computed_range_negative_data_counterexample:
  "heat_scales (trace (generate_heatmap_fig quiet_ext [] [neg_panel, pos_panel]
       [''a'', ''b''] None (Some []) False None))
     = [(0, Some (Fin 0), Some (Fin 0)), (1, Some (Fin 1), Some (Fin 4))] \<and>
   elems ([neg_panel, pos_panel] ! 0) = [Fin (- 1), Fin (- 2), Fin (- 3), Fin (- 4)] \<and>
   \<not> fl_le (Fin 0) (Fin (- 1))"
  by code_simp






subsection \<open>The ranges list\<close>

text \<open>
  C3, as the code has it: the length of a non-empty \<open>minmax\<close> is never checked. A call
  that is valid otherwise (two panels or more, every panel passes the first loop, has a
  label and can be drawn) returns normally whatever that length is; the list is left as
  it was, and exactly the first panels, as far as the shortest of the panels, \<open>minmax\<close>
  and \<open>centers\<close> reaches, are drawn.
\<close>

theorem ranges_length_is_not_checked:
  assumes "minmax_used dflt arg \<noteq> []"
    and "2 \<le> length ps"
    and "panels_ok ex (centers_or_default centers (length ps)) cb 0 ps"
    and "draws_ok ex ls ps"
  shows "raised (generate_heatmap_fig ex dflt ps ls centers arg al cb) = None \<and>
         minmax_out (generate_heatmap_fig ex dflt ps ls centers arg al cb) = minmax_used dflt arg \<and>
         drawn_axes (trace (generate_heatmap_fig ex dflt ps ls centers arg al cb)) =
           [0 ..< min (length ps)
                   (min (length (minmax_used dflt arg))
                        (length (centers_or_default centers (length ps))))]"
proof -
  note cr = call_returns [OF assms(2,3,4), where dflt = dflt and arg = arg and al = al]
  have mo: "minmax_out (generate_heatmap_fig ex dflt ps ls centers arg al cb) = minmax_used dflt arg"
    using cr(4) assms(1) by blast
  from cr(1) mo cr(2) [unfolded mo] show ?thesis by blast
qed

theorem ranges_length_is_not_checked_witness:
  "minmax_used [] (Some [(Fin 0, Fin 9), (Fin 0, Fin 9), (Fin 0, Fin 9)]) \<noteq> [] \<and>
   2 \<le> length [pos_panel, mixed_panel] \<and>
   panels_ok quiet_ext (centers_or_default None (length [pos_panel, mixed_panel])) None 0
     [pos_panel, mixed_panel] \<and>
   draws_ok quiet_ext [''a'', ''b''] [pos_panel, mixed_panel] \<and>
   raised (generate_heatmap_fig quiet_ext [] [pos_panel, mixed_panel] [''a'', ''b''] None
      (Some [(Fin 0, Fin 9), (Fin 0, Fin 9), (Fin 0, Fin 9)]) False None) = None \<and>
   drawn_axes (trace (generate_heatmap_fig quiet_ext [] [pos_panel, mixed_panel] [''a'', ''b''] None
      (Some [(Fin 0, Fin 9), (Fin 0, Fin 9), (Fin 0, Fin 9)]) False None)) = [0, 1]"
proof -
  have h1: "minmax_used [] (Some [(Fin 0, Fin 9), (Fin 0, Fin 9), (Fin 0, Fin 9)]) \<noteq> []"
    by (simp add: minmax_used_def)
  have h2: "2 \<le> length [pos_panel, mixed_panel]" by simp
  have h3: "panels_ok quiet_ext (centers_or_default None (length [pos_panel, mixed_panel])) None 0
     [pos_panel, mixed_panel]"
    by code_simp
  have h4: "draws_ok quiet_ext [''a'', ''b''] [pos_panel, mixed_panel]" by code_simp
  have e: "[0 ..< min (length [pos_panel, mixed_panel])
                   (min (length (minmax_used [] (Some [(Fin 0, Fin 9), (Fin 0, Fin 9), (Fin 0, Fin 9)])))
                        (length (centers_or_default None (length [pos_panel, mixed_panel]))))]
           = [0, 1]"
    by code_simp
  from ranges_length_is_not_checked [OF h1 h2 h3 h4, where al = False]
  have c: "raised (generate_heatmap_fig quiet_ext [] [pos_panel, mixed_panel] [''a'', ''b''] None
      (Some [(Fin 0, Fin 9), (Fin 0, Fin 9), (Fin 0, Fin 9)]) False None) = None"
    "drawn_axes (trace (generate_heatmap_fig quiet_ext [] [pos_panel, mixed_panel] [''a'', ''b''] None
      (Some [(Fin 0, Fin 9), (Fin 0, Fin 9), (Fin 0, Fin 9)]) False None)) = [0, 1]"
    unfolding e by blast+
  from h1 h2 h3 h4 c show ?thesis by blast
qed

text \<open>
  C3 as stated fails: with two panels and one range the call raises nothing; it draws
  the first panel only and leaves the second axis empty.
\<close>

theorem short_ranges_counterexample:
  "length [(Fin 0, Fin 9)] \<noteq> length [pos_panel, mixed_panel] \<and>
   raised (generate_heatmap_fig quiet_ext [] [pos_panel, mixed_panel] [''a'', ''b''] None
      (Some [(Fin 0, Fin 9)]) False None) = None \<and>
   drawn_axes (trace (generate_heatmap_fig quiet_ext [] [pos_panel, mixed_panel] [''a'', ''b''] None
      (Some [(Fin 0, Fin 9)]) False None)) = [0]"
  by code_simp

text \<open>
  C4: the ranges a call leaves in an empty list, passed to a second call with the same
  arguments, give the same result: the same outcome, the same trace of calls (so the
  same \<open>vmin\<close> and \<open>vmax\<close> for every panel) and the same list.
\<close>

theorem ranges_round_trip:
  "generate_heatmap_fig ex dflt ps ls centers
     (Some (minmax_out (generate_heatmap_fig ex dflt ps ls centers (Some []) al cb))) al cb
   = generate_heatmap_fig ex dflt ps ls centers (Some []) al cb"
proof -
  obtain r evs mm where b: "heatmap_fig_body ex ps ls centers [] al cb = (r, evs, mm)"
    by (cases "heatmap_fig_body ex ps ls centers [] al cb") auto
  have first: "generate_heatmap_fig ex dflt ps ls centers (Some []) al cb =
          \<lparr>raised = r, trace = evs, minmax_out = mm, default_out = dflt\<rparr>"
    using b by (simp add: generate_heatmap_fig_def)
  have second: "generate_heatmap_fig ex dflt ps ls centers (Some mm) al cb =
          \<lparr>raised = r, trace = evs, minmax_out = mm, default_out = dflt\<rparr>"
    using body_round_trip [OF b] by (simp add: generate_heatmap_fig_def)
  show ?thesis unfolding first using second by simp
qed

theorem ranges_round_trip_example:
  "minmax_out (generate_heatmap_fig quiet_ext [] [mixed_panel, pos_panel, color_panel]
      [''a'', ''b'', ''c''] None (Some []) False None)
     = [(Fin (- 1), Fin 5), (Fin 1, Fin 4), (PInf, NInf)] \<and>
   heat_scales (trace (generate_heatmap_fig quiet_ext [] [mixed_panel, pos_panel, color_panel]
      [''a'', ''b'', ''c''] None (Some [(Fin (- 1), Fin 5), (Fin 1, Fin 4), (PInf, NInf)]) False None))
     = [(0, Some (Fin 0), Some (Fin 5)), (1, Some (Fin 1), Some (Fin 4))] \<and>
   generate_heatmap_fig quiet_ext [] [mixed_panel, pos_panel, color_panel]
      [''a'', ''b'', ''c''] None (Some [(Fin (- 1), Fin 5), (Fin 1, Fin 4), (PInf, NInf)]) False None
     = generate_heatmap_fig quiet_ext [] [mixed_panel, pos_panel, color_panel]
      [''a'', ''b'', ''c''] None (Some []) False None"
proof -
  have h1: "minmax_out (generate_heatmap_fig quiet_ext [] [mixed_panel, pos_panel, color_panel]
      [''a'', ''b'', ''c''] None (Some []) False None)
     = [(Fin (- 1), Fin 5), (Fin 1, Fin 4), (PInf, NInf)]"
    by code_simp
  have h2: "heat_scales (trace (generate_heatmap_fig quiet_ext [] [mixed_panel, pos_panel, color_panel]
      [''a'', ''b'', ''c''] None (Some [(Fin (- 1), Fin 5), (Fin 1, Fin 4), (PInf, NInf)]) False None))
     = [(0, Some (Fin 0), Some (Fin 5)), (1, Some (Fin 1), Some (Fin 4))]"
    by code_simp
  from ranges_round_trip [of quiet_ext "[]" "[mixed_panel, pos_panel, color_panel]"
      "[''a'', ''b'', ''c'']" None False None]
  have h3: "generate_heatmap_fig quiet_ext [] [mixed_panel, pos_panel, color_panel]
      [''a'', ''b'', ''c''] None (Some [(Fin (- 1), Fin 5), (Fin 1, Fin 4), (PInf, NInf)]) False None
     = generate_heatmap_fig quiet_ext [] [mixed_panel, pos_panel, color_panel]
      [''a'', ''b'', ''c''] None (Some []) False None"
    unfolding h1 .
  from h1 h2 h3 show ?thesis by blast
qed



text \<open>
  C9 fails on the code: the default value of \<open>minmax\<close> is one list object, and a call that
  omits \<open>minmax\<close> appends its ranges to it. After a first such call on two panels with
  values 1 to 4, a second such call on two other panels (values -1 to 5) finds the list
  non-empty, computes nothing and draws its panels with the ranges of the first call; a
  second call on three panels draws only two of them. A call on a fresh list would have
  used the range 0 to 5.
\<close>

theorem default_ranges_leak_into_next_call:
  "default_out (generate_heatmap_fig quiet_ext [] [pos_panel, pos_panel] [''a'', ''b'']
      None None False None) = [(Fin 1, Fin 4), (Fin 1, Fin 4)] \<and>
   heat_scales (trace (generate_heatmap_fig quiet_ext
      (default_out (generate_heatmap_fig quiet_ext [] [pos_panel, pos_panel] [''a'', ''b'']
         None None False None))
      [mixed_panel, mixed_panel] [''c'', ''d''] None None False None))
     = [(0, Some (Fin 1), Some (Fin 4)), (1, Some (Fin 1), Some (Fin 4))] \<and>
   heat_scales (trace (generate_heatmap_fig quiet_ext []
      [mixed_panel, mixed_panel] [''c'', ''d''] None None False None))
     = [(0, Some (Fin 0), Some (Fin 5)), (1, Some (Fin 0), Some (Fin 5))] \<and>
   drawn_axes (trace (generate_heatmap_fig quiet_ext
      (default_out (generate_heatmap_fig quiet_ext [] [pos_panel, pos_panel] [''a'', ''b'']
         None None False None))
      [mixed_panel, mixed_panel, mixed_panel] [''c'', ''d'', ''e''] None None False None))
     = [0, 1]"
  by code_simp

subsection \<open>Width ratios\<close>

text \<open>
  C6, as the code has it: the width ratio handed to \<open>plt.subplots\<close> for a panel is 1 when
  the panel is a color panel or the caller declines its colour bar, and 1.25 otherwise. So
  with no \<open>colorbars\<close> at all every scalar panel gets 1.25, and with flags the ratio is
  1.25 exactly for the scalar panels whose flag is \<open>True\<close>. In both cases 1.25 goes to the
  scalar panels whose heatmap call draws a colour bar.
\<close>

theorem width_ratio_by_colorbar_flag:
  assumes "subplot_ratios (trace (generate_heatmap_fig ex dflt ps ls centers arg al cb)) = Some rs"
    and "i < length ps"
  shows "length rs = length ps \<and>
         rs ! i = (if is_scalar (ps ! i) \<and> \<not> colorbar_declined cb i then 1.25 else 1) \<and>
         (is_color (ps ! i) \<longrightarrow> rs ! i = 1) \<and>
         (cb = None \<longrightarrow> rs ! i = (if is_scalar (ps ! i) then 1.25 else 1)) \<and>
         (cb \<noteq> None \<longrightarrow>
            rs ! i = (if is_scalar (ps ! i) \<and> colorbar_requested cb i then 1.25 else 1)) \<and>
         (\<forall>a. (i, a) \<in> set (heat_calls (trace (generate_heatmap_fig ex dflt ps ls centers arg al cb)))
              \<longrightarrow> colorbar_drawn a = (\<not> colorbar_declined cb i))"
proof -
  let ?cs = "centers_or_default centers (length ps)"
  let ?mm0 = "minmax_used dflt arg"
  from assms(1) have
    "subplot_ratios (fst (snd (heatmap_fig_body ex ps ls centers ?mm0 al cb))) = Some rs"
    by (simp add: generate_heatmap_fig_fields)
  from body_subplot_ratios [OF this] obtain st where
    st: "layout_loop ex ?cs cb (?mm0 = []) 0 ps (init_state ?mm0) = Inr st" and
    rs: "rs = ratios st"
    by blast
  have len: "length rs = length ps"
    using layout_loop_lengths(1) [OF st] rs by (simp add: init_state_def)
  from layout_loop_nth [OF st assms(2)] obtain r0 im v1 v2 h h' where
    sc: "scan_panel ex ?cs cb i (ps ! i) h = Inr (r0, im, v1, v2, h')" and
    ri: "rs ! i = r0"
    using rs by (auto simp: init_state_def)
  have ratio: "rs ! i = (if is_scalar (ps ! i) \<and> \<not> colorbar_declined cb i then 1.25 else 1)"
  proof (cases "is_scalar (ps ! i)")
    case True
    from scan_panel_scalar(3,4) [OF sc True] ri True show ?thesis
      by (auto simp: colorbar_declined_def)
  next
    case False
    from scan_panel_not_scalar(2) [OF sc False] ri False show ?thesis by simp
  qed
  have color: "is_color (ps ! i) \<longrightarrow> rs ! i = 1"
    using ratio by (simp add: is_color_def is_scalar_def)
  have none: "cb = None \<longrightarrow> rs ! i = (if is_scalar (ps ! i) then 1.25 else 1)"
    using ratio by (simp add: colorbar_declined_def)
  have some: "cb \<noteq> None \<longrightarrow>
            rs ! i = (if is_scalar (ps ! i) \<and> colorbar_requested cb i then 1.25 else 1)"
    using ratio by (cases cb) (simp_all add: colorbar_declined_def colorbar_requested_def)
  have drawn: "colorbar_drawn a = (\<not> colorbar_declined cb i)"
    if "(i, a) \<in> set (heat_calls (trace (generate_heatmap_fig ex dflt ps ls centers arg al cb)))"
    for a
  proof -
    from that have "heatmap_kwargs cb i = Inr (cbar a, cbar_kws a)"
      by (rule heat_call_panel)
    then show ?thesis
      by (auto simp: heatmap_kwargs_def py_index_def colorbar_drawn_def colorbar_declined_def
          split: option.splits if_splits)
  qed
  from len ratio color none some drawn show ?thesis by blast
qed

theorem width_ratio_by_colorbar_flag_witness:
  "subplot_ratios (trace (generate_heatmap_fig quiet_ext [] [pos_panel, mixed_panel, color_panel]
       [''a'', ''b'', ''c''] None (Some []) False (Some [True, False, True])))
     = Some [1.25, 1, 1] \<and>
   1 < length [pos_panel, mixed_panel, color_panel] \<and>
   length [1.25, 1, 1 :: real] = length [pos_panel, mixed_panel, color_panel] \<and>
   map (\<lambda>(i, a). (i, cbar a)) (heat_calls (trace (generate_heatmap_fig quiet_ext []
       [pos_panel, mixed_panel, color_panel] [''a'', ''b'', ''c''] None (Some []) False
       (Some [True, False, True]))))
     = [(0, Some True), (1, Some False)]"
proof -
  have h1: "subplot_ratios (trace (generate_heatmap_fig quiet_ext [] [pos_panel, mixed_panel, color_panel]
       [''a'', ''b'', ''c''] None (Some []) False (Some [True, False, True])))
     = Some [1.25, 1, 1]"
    by code_simp
  have h2: "1 < length [pos_panel, mixed_panel, color_panel]" by simp
  have h3: "map (\<lambda>(i, a). (i, cbar a)) (heat_calls (trace (generate_heatmap_fig quiet_ext []
       [pos_panel, mixed_panel, color_panel] [''a'', ''b'', ''c''] None (Some []) False
       (Some [True, False, True]))))
     = [(0, Some True), (1, Some False)]"
    by code_simp
  from width_ratio_by_colorbar_flag [OF h1 h2]
  have c: "length [1.25, 1, 1 :: real] = length [pos_panel, mixed_panel, color_panel]" by blast
  from h1 h2 h3 c show ?thesis by blast
qed

text \<open>
  C6 as stated fails when no colour bar flags are supplied: no panel asks for a colour
  bar, and both scalar panels get the ratio 1.25, not 1.
\<close>

theorem no_colorbar_flags_counterexample:
  "\<not> colorbar_requested None 0 \<and> \<not> colorbar_requested None 1 \<and>
   is_scalar ([pos_panel, mixed_panel, color_panel] ! 0) \<and>
   is_scalar ([pos_panel, mixed_panel, color_panel] ! 1) \<and>
   subplot_ratios (trace (generate_heatmap_fig quiet_ext [] [pos_panel, mixed_panel, color_panel]
       [''a'', ''b'', ''c''] None (Some []) False None))
     = Some [1.25, 1.25, 1] \<and>
   (1.25 :: real) \<noteq> 1"
  by code_simp

subsection \<open>Errors\<close>

text \<open>
  C8, as the code has it: when a panel has a rank other than 2 and 3 after the squeeze, the
  call raises in the first loop, before \<open>plt.subplots\<close> and before any drawing: the trace
  is empty. The error is the one of the first panel whose iteration raises, a panel at or
  before the one of the bad rank: the exception of line 81 (a plain \<open>Exception\<close>) for a
  bad rank, \<open>IndexError\<close> where \<open>centers\<close> or \<open>colorbars\<close> is too short for a scalar panel,
  the error of \<open>invTrans()\<close> for a color panel it rejects. So it is the exception of line
  81 whenever every panel before the one of the bad rank passes its own iteration.
\<close>

theorem bad_rank_raises_before_rendering:
  assumes "k < length ps"
    and "\<not> is_scalar (ps ! k)"
    and "\<not> is_color (ps ! k)"
  shows "raised (generate_heatmap_fig ex dflt ps ls centers arg al cb) \<noteq> None \<and>
         trace (generate_heatmap_fig ex dflt ps ls centers arg al cb) = [] \<and>
         (panels_ok ex (centers_or_default centers (length ps)) cb 0 (take k ps) \<longrightarrow>
            raised (generate_heatmap_fig ex dflt ps ls centers arg al cb) = Some UnsupportedRank) \<and>
         (\<exists>j e. j \<le> k \<and>
            panels_ok ex (centers_or_default centers (length ps)) cb 0 (take j ps) \<and>
            \<not> panel_ok ex (centers_or_default centers (length ps)) cb j (ps ! j) \<and>
            (\<forall>g. scan_panel ex (centers_or_default centers (length ps)) cb j (ps ! j) g = Inl e) \<and>
            (e = UnsupportedRank \<or> e = IndexError \<or> e = TransformError) \<and>
            raised (generate_heatmap_fig ex dflt ps ls centers arg al cb) = Some e)"
proof -
  let ?cs = "centers_or_default centers (length ps)"
  let ?mm0 = "minmax_used dflt arg"
  have bad: "\<not> panel_ok ex ?cs cb k (ps ! k)"
    using assms(2,3) by (rule bad_rank_not_ok)
  have "\<not> panels_ok ex ?cs cb 0 ps"
    using panels_ok_nth [of ex ?cs cb 0 ps k] assms(1) bad by auto
  then have "\<nexists>st. layout_loop ex ?cs cb (?mm0 = []) 0 ps (init_state ?mm0) = Inr st"
    using layout_loop_ok_iff [of ex ?cs cb "?mm0 = []" 0 ps "init_state ?mm0"] by blast
  then obtain e m where
    err: "layout_loop ex ?cs cb (?mm0 = []) 0 ps (init_state ?mm0) = Inl (e, m)"
    by (cases "layout_loop ex ?cs cb (?mm0 = []) 0 ps (init_state ?mm0)") auto
  have body: "heatmap_fig_body ex ps ls centers ?mm0 al cb = (Some e, [], m)"
    using err by (rule body_layout_error)
  have r: "raised (generate_heatmap_fig ex dflt ps ls centers arg al cb) = Some e"
    and t: "trace (generate_heatmap_fig ex dflt ps ls centers arg al cb) = []"
    using body by (simp_all add: generate_heatmap_fig_fields)
  from layout_loop_Inl [OF err] obtain k' st1 where
    k': "k' < length ps" and
    tk: "layout_loop ex ?cs cb (?mm0 = []) 0 (take k' ps) (init_state ?mm0) = Inr st1" and
    fail: "scan_panel ex ?cs cb (0 + k') (ps ! k') (g_vmax st1) = Inl e"
    by blast
  have fail': "scan_panel ex ?cs cb k' (ps ! k') (g_vmax st1) = Inl e" using fail by simp
  have nok: "\<not> panel_ok ex ?cs cb k' (ps ! k')"
    using scan_panel_ok_iff [of ex ?cs cb k' "ps ! k'" "g_vmax st1"] fail' by simp
  have okk': "panels_ok ex ?cs cb 0 (take k' ps)"
    using layout_loop_ok_iff [of ex ?cs cb "?mm0 = []" 0 "take k' ps" "init_state ?mm0"] tk
    by blast
  have le: "k' \<le> k"
  proof (rule ccontr)
    assume "\<not> k' \<le> k"
    then have lt: "k < k'" by simp
    then have "k < length (take k' ps)" using k' by simp
    from panels_ok_nth [OF okk' this] lt bad show False by simp
  qed
  have allg: "\<forall>g. scan_panel ex ?cs cb k' (ps ! k') g = Inl e"
    using scan_panel_error(1) [OF fail'] by blast
  have kinds: "e = UnsupportedRank \<or> e = IndexError \<or> e = TransformError"
    using scan_panel_error(2) [OF fail'] .
  have first: "e = UnsupportedRank" if ok: "panels_ok ex ?cs cb 0 (take k ps)"
  proof -
    have "\<not> k' < k"
    proof
      assume lt: "k' < k"
      then have "k' < length (take k ps)" using assms(1) by simp
      from panels_ok_nth [OF ok this] lt nok show False by simp
    qed
    with le have "k' = k" by simp
    with fail' scan_panel_bad_rank [OF assms(2,3), of ex ?cs cb k "g_vmax st1"]
    show ?thesis by simp
  qed
  have ex_first: "\<exists>j e'. j \<le> k \<and> panels_ok ex ?cs cb 0 (take j ps) \<and>
            \<not> panel_ok ex ?cs cb j (ps ! j) \<and>
            (\<forall>g. scan_panel ex ?cs cb j (ps ! j) g = Inl e') \<and>
            (e' = UnsupportedRank \<or> e' = IndexError \<or> e' = TransformError) \<and>
            raised (generate_heatmap_fig ex dflt ps ls centers arg al cb) = Some e'"
    using le okk' nok allg kinds r by blast
  from r t first ex_first show ?thesis by simp
qed

theorem bad_rank_raises_before_rendering_witness:
  "1 < length [pos_panel, rank4_panel] \<and>
   \<not> is_scalar ([pos_panel, rank4_panel] ! 1) \<and>
   \<not> is_color ([pos_panel, rank4_panel] ! 1) \<and>
   panels_ok quiet_ext (centers_or_default None (length [pos_panel, rank4_panel])) None 0
     (take 1 [pos_panel, rank4_panel]) \<and>
   raised (generate_heatmap_fig quiet_ext [] [pos_panel, rank4_panel] [''a'', ''b''] None
             (Some []) False None) = Some UnsupportedRank \<and>
   trace (generate_heatmap_fig quiet_ext [] [pos_panel, rank4_panel] [''a'', ''b''] None
             (Some []) False None) = []"
proof -
  have h1: "1 < length [pos_panel, rank4_panel]" by simp
  have h2: "\<not> is_scalar ([pos_panel, rank4_panel] ! 1)" by code_simp
  have h3: "\<not> is_color ([pos_panel, rank4_panel] ! 1)" by code_simp
  have h4: "panels_ok quiet_ext (centers_or_default None (length [pos_panel, rank4_panel])) None 0
     (take 1 [pos_panel, rank4_panel])"
    by code_simp
  from bad_rank_raises_before_rendering [OF h1 h2 h3, of quiet_ext "[]" "[''a'', ''b'']" None
      "Some []" False None] h4
  have c: "raised (generate_heatmap_fig quiet_ext [] [pos_panel, rank4_panel] [''a'', ''b''] None
             (Some []) False None) = Some UnsupportedRank"
    "trace (generate_heatmap_fig quiet_ext [] [pos_panel, rank4_panel] [''a'', ''b''] None
             (Some []) False None) = []"
    by blast+
  from h1 h2 h3 h4 c show ?thesis by blast
qed

text \<open>
  C8 as stated fails when an earlier panel fails first: with an empty \<open>colorbars\<close> list
  the scalar panel before the rank-4 panel raises \<open>IndexError\<close>, and a five-channel panel
  before it makes \<open>invTrans()\<close> raise; neither error is the one of line 81. Nothing is
  drawn in either call.
\<close>

theorem bad_rank_other_error_counterexample:
  "\<not> is_scalar ([pos_panel, rank4_panel] ! 1) \<and>
   \<not> is_color ([pos_panel, rank4_panel] ! 1) \<and>
   raised (generate_heatmap_fig quiet_ext [] [pos_panel, rank4_panel] [''a'', ''b''] None
             (Some []) False (Some [])) = Some IndexError \<and>
   trace (generate_heatmap_fig quiet_ext [] [pos_panel, rank4_panel] [''a'', ''b''] None
             (Some []) False (Some [])) = [] \<and>
   is_color ([five_channel_panel, rank4_panel] ! 0) \<and>
   raised (generate_heatmap_fig channel_checking_ext [] [five_channel_panel, rank4_panel]
             [''a'', ''b''] None (Some []) False None) = Some TransformError \<and>
   IndexError \<noteq> UnsupportedRank \<and> TransformError \<noteq> UnsupportedRank"
  by code_simp

text \<open>
  C5, as the code has it: only \<open>sns.heatmap\<close> is inside the \<open>try\<close>. Whichever heatmap
  calls raise (\<open>f\<close> says which), a call that is valid otherwise, and whose color panels
  \<open>imshow\<close> accepts, raises nothing: every panel within reach still gets its draw call,
  in order, and there is one \<open>print\<close> for each heatmap call that raised. An error of
  \<open>imshow\<close> on a color panel is not caught.
\<close>

theorem heatmap_failure_is_skipped:
  assumes "2 \<le> length ps"
    and "panels_ok ex (centers_or_default centers (length ps)) cb 0 ps"
    and "draws_ok ex ls ps"
  shows "raised (generate_heatmap_fig (ex\<lparr>heatmap_raises := f\<rparr>) dflt ps ls centers arg al cb) = None \<and>
    drawn_axes (trace (generate_heatmap_fig (ex\<lparr>heatmap_raises := f\<rparr>) dflt ps ls centers arg al cb)) =
      [0 ..< min (length ps)
         (min (length (minmax_out
                 (generate_heatmap_fig (ex\<lparr>heatmap_raises := f\<rparr>) dflt ps ls centers arg al cb)))
              (length (centers_or_default centers (length ps))))] \<and>
    print_count (trace (generate_heatmap_fig (ex\<lparr>heatmap_raises := f\<rparr>) dflt ps ls centers arg al cb)) =
      length (filter (\<lambda>(i, a). f a) (heat_calls (trace
         (generate_heatmap_fig (ex\<lparr>heatmap_raises := f\<rparr>) dflt ps ls centers arg al cb))))"
proof -
  let ?ex = "ex\<lparr>heatmap_raises := f\<rparr>"
  have ok: "panels_ok ?ex (centers_or_default centers (length ps)) cb 0 ps"
    using assms(2) by (simp add: panels_ok_heatmap_update)
  have dr: "draws_ok ?ex ls ps" using assms(3) by (simp add: draws_ok_heatmap_update)
  note cr = call_returns [OF assms(1) ok dr, where dflt = dflt and arg = arg and al = al]
  have "failed_heat_calls ?ex evs = filter (\<lambda>(i, a). f a) (heat_calls evs)" for evs
    by (simp add: failed_heat_calls_def)
  with cr(1,2,3) show ?thesis by simp
qed

theorem heatmap_failure_is_skipped_witness:
  "2 \<le> length [flat_panel, pos_panel, color_panel] \<and>
   panels_ok quiet_ext (centers_or_default None (length [flat_panel, pos_panel, color_panel])) None 0
     [flat_panel, pos_panel, color_panel] \<and>
   draws_ok quiet_ext [''a'', ''b'', ''c''] [flat_panel, pos_panel, color_panel] \<and>
   raised (generate_heatmap_fig constant_failing_ext [] [flat_panel, pos_panel, color_panel]
      [''a'', ''b'', ''c''] None (Some []) False None) = None \<and>
   drawn_axes (trace (generate_heatmap_fig constant_failing_ext [] [flat_panel, pos_panel, color_panel]
      [''a'', ''b'', ''c''] None (Some []) False None)) = [0, 1, 2] \<and>
   print_count (trace (generate_heatmap_fig constant_failing_ext [] [flat_panel, pos_panel, color_panel]
      [''a'', ''b'', ''c''] None (Some []) False None)) = 1 \<and>
   map fst (failed_heat_calls constant_failing_ext (trace (generate_heatmap_fig constant_failing_ext []
      [flat_panel, pos_panel, color_panel] [''a'', ''b'', ''c''] None (Some []) False None))) = [0]"
proof -
  have h1: "2 \<le> length [flat_panel, pos_panel, color_panel]" by simp
  have h2: "panels_ok quiet_ext (centers_or_default None (length [flat_panel, pos_panel, color_panel]))
     None 0 [flat_panel, pos_panel, color_panel]"
    by code_simp
  have h3: "draws_ok quiet_ext [''a'', ''b'', ''c''] [flat_panel, pos_panel, color_panel]"
    by code_simp
  have e1: "drawn_axes (trace (generate_heatmap_fig constant_failing_ext [] [flat_panel, pos_panel, color_panel]
      [''a'', ''b'', ''c''] None (Some []) False None)) = [0, 1, 2]"
    by code_simp
  have e2: "print_count (trace (generate_heatmap_fig constant_failing_ext [] [flat_panel, pos_panel, color_panel]
      [''a'', ''b'', ''c''] None (Some []) False None)) = 1"
    by code_simp
  have e3: "map fst (failed_heat_calls constant_failing_ext (trace (generate_heatmap_fig constant_failing_ext []
      [flat_panel, pos_panel, color_panel] [''a'', ''b'', ''c''] None (Some []) False None))) = [0]"
    by code_simp
  from heatmap_failure_is_skipped [OF h1 h2 h3,
      where f = "\<lambda>a. length (remdups (elems (img a))) \<le> 1" and dflt = "[]"
        and arg = "Some []" and al = False]
  have c: "raised (generate_heatmap_fig constant_failing_ext [] [flat_panel, pos_panel, color_panel]
      [''a'', ''b'', ''c''] None (Some []) False None) = None"
    unfolding constant_failing_ext_def by blast
  from h1 h2 h3 c e1 e2 e3 show ?thesis by blast
qed

text \<open>
  C5 as stated fails for a color panel: when \<open>imshow\<close> raises on the first panel, the
  error reaches the caller and the scalar panel after it is never drawn.
\<close>

theorem imshow_failure_counterexample:
  "is_color ([color_panel, pos_panel] ! 0) \<and>
   raised (generate_heatmap_fig imshow_failing_ext [] [color_panel, pos_panel]
      [''a'', ''b''] None (Some []) False None) = Some ImshowError \<and>
   drawn_axes (trace (generate_heatmap_fig imshow_failing_ext [] [color_panel, pos_panel]
      [''a'', ''b''] None (Some []) False None)) = [0] \<and>
   heat_calls (trace (generate_heatmap_fig imshow_failing_ext [] [color_panel, pos_panel]
      [''a'', ''b''] None (Some []) False None)) = [] \<and>
   heat_scales (trace (generate_heatmap_fig quiet_ext [] [color_panel, pos_panel]
      [''a'', ''b''] None (Some []) False None)) = [(1, Some (Fin 1), Some (Fin 4))]"
  by code_simp

end
